theory Spec2Isabelle
  imports Complex_Main "HOL-Library.Sublist"
begin

section \<open>Strings as the highlight routine uses them\<close>

text \<open>
  A JavaScript string is a sequence of UTF-16 code units, here a list of numbers;
  \<open>str\<close> embeds the ASCII literals of the source.

  \<open>String.prototype.toLowerCase\<close> is a built-in of the language, defined by the Unicode
  case mappings, and not part of the repository. Every definition below that calls it
  takes it as the parameter \<open>lc\<close>, and what is proved holds for every such function.
  Two facts about the built-in are stated as predicates, for the properties that need
  them: a string of white space only is left as it is, and a string of ASCII code units
  is folded code unit by code unit, \<open>A\<close>..\<open>Z\<close> to \<open>a\<close>..\<open>z\<close>. \<open>asciiLowerCase\<close> is the
  built-in on ASCII text; it serves where a property is evaluated on an example.

  \<open>String.prototype.trim\<close> strips white space and line terminators from both ends:
  TAB, LF, VT, FF, CR, SPACE, NO-BREAK SPACE, U+1680, U+2000..U+200A, U+2028, U+2029,
  U+202F, U+205F, U+3000 and U+FEFF. \<open>includes_str s t\<close> is \<open>s.includes(t)\<close>: \<open>t\<close>
  occurs in \<open>s\<close> as a contiguous run.
\<close>

type_synonym jsString = "nat list"

definition str :: "string \<Rightarrow> jsString" where
  "str s = map of_char s"

definition isWhiteSpace :: "nat \<Rightarrow> bool" where
  "isWhiteSpace c =
     (c \<in> {9, 10, 11, 12, 13, 32, 160, 5760, 8232, 8233, 8239, 8287, 12288, 65279} \<or>
      (8192 \<le> c \<and> c \<le> 8202))"

definition trim :: "jsString \<Rightarrow> jsString" where
  "trim s = rev (dropWhile isWhiteSpace (rev (dropWhile isWhiteSpace s)))"

fun includes_str :: "jsString \<Rightarrow> jsString \<Rightarrow> bool" where
  "includes_str [] t = (t = [])"
| "includes_str (c # cs) t = (prefix t (c # cs) \<or> includes_str cs t)"

definition asciiLower :: "nat \<Rightarrow> nat" where
  "asciiLower c = (if 65 \<le> c \<and> c \<le> 90 then c + 32 else c)"

definition asciiLowerCase :: "jsString \<Rightarrow> jsString" where
  "asciiLowerCase s = map asciiLower s"

definition lowerKeepsWhiteSpace :: "(jsString \<Rightarrow> jsString) \<Rightarrow> bool" where
  "lowerKeepsWhiteSpace lc = (\<forall>s. list_all isWhiteSpace s \<longrightarrow> lc s = s)"

definition lowerOnAscii :: "(jsString \<Rightarrow> jsString) \<Rightarrow> bool" where
  "lowerOnAscii lc = (\<forall>s. list_all (\<lambda>c. c < 128) s \<longrightarrow> lc s = asciiLowerCase s)"

text \<open>A string, or \<open>undefined\<close>/\<open>null\<close> (\<open>None\<close>), is truthy when it is a non-empty string.\<close>

definition truthy :: "jsString option \<Rightarrow> bool" where
  "truthy v = (case v of None \<Rightarrow> False | Some s \<Rightarrow> s \<noteq> [])"

section \<open>The procedural content generator\<close>

text \<open>
  The part descriptors that \<open>ProceduralAssembly\<close> computes from the system-type tag:
  name, primitive shape, shape arguments, position, optional rotation and base colour.
\<close>

record part =
  name :: string
  geo :: string
  args :: "real list"
  pos :: "real \<times> real \<times> real"
  rot :: "(real \<times> real \<times> real) option"
  color :: string

definition parts :: "string \<Rightarrow> part list" where
  "parts systemType =
     (let items = [] in
      if systemType = ''demo-engine'' then
        items @
        [\<lparr>name = ''Engine-Housing-Outer'', geo = ''box'', args = [4, 3, 4], pos = (0, 0, 0),
            rot = None, color = ''#475569''\<rparr>,
         \<lparr>name = ''Piston-001'', geo = ''cylinder'', args = [0.5, 0.5, 2, 32], pos = (-1, 2, -1),
            rot = None, color = ''#cbd5e1''\<rparr>,
         \<lparr>name = ''Piston-002'', geo = ''cylinder'', args = [0.5, 0.5, 2, 32], pos = (1, 2, -1),
            rot = None, color = ''#cbd5e1''\<rparr>,
         \<lparr>name = ''Piston-003'', geo = ''cylinder'', args = [0.5, 0.5, 2, 32], pos = (-1, 2, 1),
            rot = None, color = ''#cbd5e1''\<rparr>,
         \<lparr>name = ''Piston-004'', geo = ''cylinder'', args = [0.5, 0.5, 2, 32], pos = (1, 2, 1),
            rot = None, color = ''#cbd5e1''\<rparr>,
         \<lparr>name = ''Gear-Drive-Main'', geo = ''torus'', args = [1.2, 0.3, 16, 100],
            pos = (0, 0, 2.1), rot = None, color = ''#fbbf24''\<rparr>,
         \<lparr>name = ''Shaft-Coupling'', geo = ''box'', args = [0.5, 0.5, 5], pos = (2.5, 0, 0),
            rot = None, color = ''#94a3b8''\<rparr>]
      else if systemType = ''demo-pump'' then
        items @
        [\<lparr>name = ''Reservoir-Tank'', geo = ''sphere'', args = [2, 32, 32], pos = (0, 0, 0),
            rot = None, color = ''#3b82f6''\<rparr>,
         \<lparr>name = ''Valve-Inlet'', geo = ''box'', args = [1, 1, 1], pos = (-2, 0, 0),
            rot = None, color = ''#ef4444''\<rparr>,
         \<lparr>name = ''Valve-Outlet'', geo = ''box'', args = [1, 1, 1], pos = (2, 0, 0),
            rot = None, color = ''#22c55e''\<rparr>,
         \<lparr>name = ''Pipe-Connector'', geo = ''cylinder'', args = [0.2, 0.2, 6, 16],
            pos = (0, 2, 0), rot = Some (0, 0, pi / 2), color = ''#64748b''\<rparr>]
      else
        items @
        [\<lparr>name = ''PCB-Board-Base'', geo = ''box'', args = [5, 0.2, 5], pos = (0, 0, 0),
            rot = None, color = ''#064e3b''\<rparr>,
         \<lparr>name = ''Chip-CPU'', geo = ''box'', args = [1, 0.5, 1], pos = (0, 0.5, 0),
            rot = None, color = ''#1e293b''\<rparr>,
         \<lparr>name = ''Capacitor-C1'', geo = ''cylinder'', args = [0.3, 0.3, 0.8, 16],
            pos = (-1.5, 0.5, -1.5), rot = None, color = ''#eab308''\<rparr>,
         \<lparr>name = ''Capacitor-C2'', geo = ''cylinder'', args = [0.3, 0.3, 0.8, 16],
            pos = (-1.0, 0.5, -1.5), rot = None, color = ''#eab308''\<rparr>,
         \<lparr>name = ''Resistor-Array'', geo = ''box'', args = [2, 0.3, 0.5], pos = (1, 0.4, 1.5),
            rot = None, color = ''#000000''\<rparr>])"

definition partNames :: "string \<Rightarrow> string list" where
  "partNames systemType = map part.name (parts systemType)"

section \<open>Materials, the object store and the scene graph\<close>

datatype color = Color string

text \<open>The fields of a standard material that the routine reads, writes or carries over.\<close>

record material =
  color :: color
  emissive :: color
  emissiveIntensity :: real
  transparent :: bool
  opacity :: real
  roughness :: real
  metalness :: real

text \<open>
  Materials are objects with identity: two meshes may hold the same material, and
  \<open>child.material = child.userData.originalMaterial\<close> assigns a reference. The
  \<open>material\<close> property of a mesh refers to one material or, for a mesh with several
  materials as the FBX loader builds them, to an array of materials. The store is the
  list of all such objects allocated so far, and an address is an index into it.
\<close>

type_synonym addr = nat

datatype heapObject = MaterialObject material | ArrayObject "addr list"

type_synonym heap = "heapObject list"

datatype jsError = TypeError

text \<open>
  \<open>x.clone()\<close>: a material is copied to a new object at the end of the store; an array
  has no method \<open>clone\<close>, and the call raises a TypeError.
\<close>

definition clone :: "addr \<Rightarrow> heap \<Rightarrow> jsError + addr \<times> heap" where
  "clone a h =
     (case h ! a of
        MaterialObject m \<Rightarrow> Inr (length h, h @ [MaterialObject m])
      | ArrayObject ms \<Rightarrow> Inl TypeError)"

text \<open>Assignments to fields of the material at an address.\<close>

definition onMaterial :: "(material \<Rightarrow> material) \<Rightarrow> heapObject \<Rightarrow> heapObject" where
  "onMaterial f obj =
     (case obj of MaterialObject m \<Rightarrow> MaterialObject (f m) | ArrayObject ms \<Rightarrow> ArrayObject ms)"

definition assignFields :: "(material \<Rightarrow> material) \<Rightarrow> addr \<Rightarrow> heap \<Rightarrow> heap" where
  "assignFields f a h = h[a := onMaterial f (h ! a)]"

type_synonym vec3 = "real \<times> real \<times> real"

text \<open>
  The own fields of a scene-graph node. \<open>name\<close> is \<open>None\<close> when the node has no name
  (the routine reads \<open>child.name || ''\<close>); \<open>originalMaterial\<close> is
  \<open>userData.originalMaterial\<close>, \<open>None\<close> until the routine has cached a snapshot;
  \<open>userData\<close> holds the remaining author-supplied entries.
\<close>

record props =
  isMesh :: bool
  name :: "jsString option"
  uuid :: jsString
  position :: vec3
  rotation :: vec3
  geometry :: string
  material :: addr
  originalMaterial :: "addr option"
  userData :: "(string \<times> string) list"

datatype object3d = Object3D props "object3d list"

text \<open>
  \<open>Object3D.traverse(callback)\<close>: the callback runs on the node itself, then on every
  child, depth first, in child order. The callback of the highlight routine reads and
  writes own fields of the visited node and the store, never the child list. An error
  raised by the callback ends the traversal.
\<close>

fun traverse ::
    "(props \<Rightarrow> heap \<Rightarrow> jsError + props \<times> heap) \<Rightarrow> object3d \<Rightarrow> heap \<Rightarrow> jsError + object3d \<times> heap"
  and traverse_children ::
    "(props \<Rightarrow> heap \<Rightarrow> jsError + props \<times> heap) \<Rightarrow> object3d list \<Rightarrow> heap \<Rightarrow>
       jsError + object3d list \<times> heap"
where
  "traverse cb (Object3D p cs) h =
     (case cb p h of
        Inl e \<Rightarrow> Inl e
      | Inr (p', h1) \<Rightarrow>
          (case traverse_children cb cs h1 of
             Inl e \<Rightarrow> Inl e
           | Inr (cs', h2) \<Rightarrow> Inr (Object3D p' cs', h2)))"
| "traverse_children cb [] h = Inr ([], h)"
| "traverse_children cb (c # cs) h =
     (case traverse cb c h of
        Inl e \<Rightarrow> Inl e
      | Inr (c', h1) \<Rightarrow>
          (case traverse_children cb cs h1 of
             Inl e \<Rightarrow> Inl e
           | Inr (cs', h2) \<Rightarrow> Inr (c' # cs', h2)))"

section \<open>The highlight routine\<close>

text \<open>
  The repository holds two versions of \<open>updateHighlight\<close>, one for the procedural
  assemblies and one for loaded model files. They differ in two places only: the
  selection test (case-folded name against the case-folded selected name, or the node's
  uuid against the selected id) and the emissive intensity of the selected preset
  (0.6 or 0.8).
\<close>

datatype variant = Procedural | Loaded

definition searchColor :: color where
  "searchColor = Color ''#3b82f6''"

definition selectColor :: color where
  "selectColor = Color ''#f97316''"

definition partName :: "(jsString \<Rightarrow> jsString) \<Rightarrow> props \<Rightarrow> jsString" where
  "partName lc child = lc (case name child of None \<Rightarrow> [] | Some n \<Rightarrow> n)"

fun isSelected :: "(jsString \<Rightarrow> jsString) \<Rightarrow> variant \<Rightarrow> jsString option \<Rightarrow> props \<Rightarrow> bool" where
  "isSelected lc Procedural selectedPartName child =
     (case selectedPartName of None \<Rightarrow> False
      | Some s \<Rightarrow> s \<noteq> [] \<and> partName lc child = lc s)"
| "isSelected lc Loaded selectedPartId child =
     (case selectedPartId of None \<Rightarrow> False
      | Some s \<Rightarrow> s \<noteq> [] \<and> uuid child = s)"

definition isSearchMatch :: "(jsString \<Rightarrow> jsString) \<Rightarrow> jsString \<Rightarrow> props \<Rightarrow> bool" where
  "isSearchMatch lc normalizedSearch child =
     (normalizedSearch \<noteq> [] \<and> includes_str (partName lc child) normalizedSearch)"

fun selectedIntensity :: "variant \<Rightarrow> real" where
  "selectedIntensity Procedural = 0.6"
| "selectedIntensity Loaded = 0.8"

definition selectedPreset :: "variant \<Rightarrow> material \<Rightarrow> material" where
  "selectedPreset v newMat =
     newMat\<lparr>emissive := selectColor, emissiveIntensity := selectedIntensity v,
            color := selectColor, transparent := False, opacity := 1\<rparr>"

definition searchPreset :: "material \<Rightarrow> material" where
  "searchPreset newMat =
     newMat\<lparr>emissive := searchColor, emissiveIntensity := 0.5,
            color := searchColor, transparent := False, opacity := 1\<rparr>"

definition ghostPreset :: "material \<Rightarrow> material" where
  "ghostPreset newMat =
     newMat\<lparr>transparent := True, opacity := 0.1, color := Color ''#cccccc'',
            roughness := 1\<rparr>"

text \<open>Step 1 of the callback: cache a clone of the material on the first visit.\<close>

definition initOriginal :: "props \<Rightarrow> heap \<Rightarrow> jsError + addr \<times> props \<times> heap" where
  "initOriginal child h =
     (case originalMaterial child of
        Some a \<Rightarrow> Inr (a, child, h)
      | None \<Rightarrow>
          (case clone (material child) h of
             Inl e \<Rightarrow> Inl e
           | Inr (a, h') \<Rightarrow> Inr (a, child\<lparr>originalMaterial := Some a\<rparr>, h')))"

text \<open>The callback passed to \<open>scene.traverse\<close>.\<close>

definition highlightChild ::
  "(jsString \<Rightarrow> jsString) \<Rightarrow> variant \<Rightarrow> jsString \<Rightarrow> jsString option \<Rightarrow> props \<Rightarrow> heap \<Rightarrow>
     jsError + props \<times> heap" where
  "highlightChild lc v normalizedSearch selected child h =
     (if isMesh child then
        (case initOriginal child h of
           Inl e \<Rightarrow> Inl e
         | Inr (orig, child1, h1) \<Rightarrow>
             if normalizedSearch = [] \<and> \<not> truthy selected then
               Inr (child1\<lparr>material := orig\<rparr>, h1)
             else
               (case clone orig h1 of
                  Inl e \<Rightarrow> Inl e
                | Inr (newMat, h2) \<Rightarrow>
                    (let preset =
                       (if isSelected lc v selected child1 then selectedPreset v
                        else if isSearchMatch lc normalizedSearch child1 then searchPreset
                        else ghostPreset)
                     in Inr (child1\<lparr>material := newMat\<rparr>, assignFields preset newMat h2))))
      else Inr (child, h))"

text \<open>
  \<open>updateHighlight(scene, searchTerm, selected)\<close>: \<open>scene\<close> is \<open>None\<close> when the root is
  missing or null. The result is the error the call raises, or the scene and the store
  after the call. The state that a call ending in an error leaves behind is not
  modelled.
\<close>

definition updateHighlight ::
  "(jsString \<Rightarrow> jsString) \<Rightarrow> variant \<Rightarrow> object3d option \<Rightarrow> jsString \<Rightarrow> jsString option \<Rightarrow> heap \<Rightarrow>
     jsError + object3d option \<times> heap" where
  "updateHighlight lc v scene searchTerm selected h =
     (case scene of
        None \<Rightarrow> Inr (None, h)
      | Some rootNode \<Rightarrow>
          (let normalizedSearch = trim (lc searchTerm) in
           case traverse (highlightChild lc v normalizedSearch selected) rootNode h of
             Inl e \<Rightarrow> Inl e
           | Inr (rootNode', h') \<Rightarrow> Inr (Some rootNode', h')))"

text \<open>
  The effect hooks call the routine on the same scene once per change of the search text
  or the selection: a sequence of invocations, each on the state the previous one left,
  ended by the first error. A call on a scene that returns, returns a scene, so the
  branch for \<open>None\<close> is never taken.
\<close>

fun highlightSequence ::
  "(jsString \<Rightarrow> jsString) \<Rightarrow> variant \<Rightarrow> (jsString \<times> jsString option) list \<Rightarrow> object3d \<Rightarrow> heap \<Rightarrow>
     jsError + object3d \<times> heap" where
  "highlightSequence lc v [] r h = Inr (r, h)"
| "highlightSequence lc v ((s, sel) # calls) r h =
     (case updateHighlight lc v (Some r) s sel h of
        Inl e \<Rightarrow> Inl e
      | Inr (Some r', h') \<Rightarrow> highlightSequence lc v calls r' h'
      | Inr (None, h') \<Rightarrow> Inr (r, h'))"

text \<open>
  The key of a mesh that the routine compares the selection with: the name in the
  version for procedural assemblies (compared after case folding), \<open>child.uuid\<close> in
  the version for loaded models.
\<close>

fun partIdentifier :: "variant \<Rightarrow> props \<Rightarrow> jsString" where
  "partIdentifier Procedural p = (case name p of None \<Rightarrow> [] | Some n \<Rightarrow> n)"
| "partIdentifier Loaded p = uuid p"

section \<open>Vocabulary for the properties\<close>

text \<open>The nodes of a scene in the order \<open>traverse\<close> visits them.\<close>

fun nodes :: "object3d \<Rightarrow> props list" where
  "nodes (Object3D p cs) = p # concat (map nodes cs)"

text \<open>The callback run over a list of nodes, threading the store.\<close>

fun visit_all ::
  "(props \<Rightarrow> heap \<Rightarrow> jsError + props \<times> heap) \<Rightarrow> props list \<Rightarrow> heap \<Rightarrow>
     jsError + props list \<times> heap" where
  "visit_all cb [] h = Inr ([], h)"
| "visit_all cb (p # ps) h =
     (case cb p h of
        Inl e \<Rightarrow> Inl e
      | Inr (p', h1) \<Rightarrow>
          (case visit_all cb ps h1 of
             Inl e \<Rightarrow> Inl e
           | Inr (ps', h2) \<Rightarrow> Inr (p' # ps', h2)))"

text \<open>
  A scene with the active material and the cached snapshot of every mesh blanked: what
  is left is the tree structure, every field of every node that is not a mesh, and every
  other field of every mesh.
\<close>

fun eraseMesh :: "object3d \<Rightarrow> object3d" where
  "eraseMesh (Object3D p cs) =
     Object3D (if isMesh p then p\<lparr>material := 0, originalMaterial := None\<rparr> else p)
       (map eraseMesh cs)"

text \<open>
  Every reference held by a mesh points to an allocated object, as every JavaScript
  reference does.
\<close>

definition wf_props :: "heap \<Rightarrow> props \<Rightarrow> bool" where
  "wf_props h p =
     (\<not> isMesh p \<or>
      (material p < length h \<and>
       (case originalMaterial p of None \<Rightarrow> True | Some a \<Rightarrow> a < length h)))"

definition wf_scene :: "object3d \<Rightarrow> heap \<Rightarrow> bool" where
  "wf_scene r h = list_all (wf_props h) (nodes r)"

text \<open>The object the snapshot of a mesh is, or will be a copy of once it is taken.\<close>

definition snapshotOf :: "heap \<Rightarrow> props \<Rightarrow> heapObject" where
  "snapshotOf h p = (case originalMaterial p of Some a \<Rightarrow> h ! a | None \<Rightarrow> h ! material p)"

definition isReset :: "jsString \<Rightarrow> jsString option \<Rightarrow> bool" where
  "isReset normalizedSearch selected = (normalizedSearch = [] \<and> \<not> truthy selected)"

definition presetFor ::
  "(jsString \<Rightarrow> jsString) \<Rightarrow> variant \<Rightarrow> jsString \<Rightarrow> jsString option \<Rightarrow> props \<Rightarrow> material \<Rightarrow> material" where
  "presetFor lc v normalizedSearch selected p =
     (if isSelected lc v selected p then selectedPreset v
      else if isSearchMatch lc normalizedSearch p then searchPreset
      else ghostPreset)"

text \<open>
  The meshes at which a call raises: the routine calls \<open>clone()\<close> on the material of a
  mesh without snapshot, and on the snapshot unless the call restores the originals.
\<close>

definition isArray :: "heapObject \<Rightarrow> bool" where
  "isArray obj = (case obj of MaterialObject m \<Rightarrow> False | ArrayObject ms \<Rightarrow> True)"

definition raisesAt :: "jsString \<Rightarrow> jsString option \<Rightarrow> heap \<Rightarrow> props \<Rightarrow> bool" where
  "raisesAt normalizedSearch selected h p =
     (isMesh p \<and>
      (case originalMaterial p of
         None \<Rightarrow> isArray (h ! material p)
       | Some a \<Rightarrow> \<not> isReset normalizedSearch selected \<and> isArray (h ! a)))"

text \<open>
  What one run of the callback over the whole scene leaves at one node: \<open>h0\<close> is the
  store before the run, \<open>hf\<close> the store after it.
\<close>

definition post ::
  "(jsString \<Rightarrow> jsString) \<Rightarrow> variant \<Rightarrow> jsString \<Rightarrow> jsString option \<Rightarrow> heap \<Rightarrow> heap \<Rightarrow>
     props \<Rightarrow> props \<Rightarrow> bool" where
  "post lc v ns sel h0 hf p p' =
     (if isMesh p then
        (\<exists>a. isMesh p' \<and> name p' = name p \<and> uuid p' = uuid p \<and>
             originalMaterial p' = Some a \<and>
             a < length hf \<and> material p' < length hf \<and> hf ! a = snapshotOf h0 p \<and>
             (case originalMaterial p of Some b \<Rightarrow> a = b | None \<Rightarrow> length h0 \<le> a) \<and>
             (if isReset ns sel then material p' = a
              else length h0 \<le> material p' \<and> material p' \<noteq> a \<and>
                   (\<exists>m. snapshotOf h0 p = MaterialObject m \<and>
                        hf ! material p' = MaterialObject (presetFor lc v ns sel p m))))
      else p' = p)"

text \<open>
  What a run, or a sequence of runs, keeps at one node: the snapshot of a mesh, once
  cached, stays the same object with the same values.
\<close>

definition keeps :: "heap \<Rightarrow> heap \<Rightarrow> props \<Rightarrow> props \<Rightarrow> bool" where
  "keeps h hf p p' =
     (if isMesh p then
        isMesh p' \<and> snapshotOf hf p' = snapshotOf h p \<and>
        (case originalMaterial p of Some a \<Rightarrow> originalMaterial p' = Some a | None \<Rightarrow> True)
      else p' = p)"

section \<open>Example scenes\<close>

text \<open>
  Two parts of the engine assembly under a group, with the materials the assembly gives
  them (base colour, metalness 0.4, roughness 0.5); the states this scene is in after a
  search for \<open>gear\<close>, after the search has been cleared again, after the same search has
  run twice, and after a selection by uuid and by name; and a scene with a mesh that holds an array of two
  materials.
\<close>

definition exampleMaterial :: "string \<Rightarrow> material" where
  "exampleMaterial c =
     \<lparr>color = Color c, emissive = Color ''#000000'', emissiveIntensity = 1,
      transparent = False, opacity = 1, roughness = 0.5, metalness = 0.4\<rparr>"

definition exampleHeap :: heap where
  "exampleHeap =
     [MaterialObject (exampleMaterial ''#fbbf24''), MaterialObject (exampleMaterial ''#94a3b8'')]"

definition exampleGroup :: props where
  "exampleGroup =
     \<lparr>isMesh = False, name = None, uuid = str ''uuid-0'', position = (0, 0, 0),
      rotation = (0, 0, 0), geometry = [], material = 0, originalMaterial = None,
      userData = []\<rparr>"

definition exampleMesh :: "string \<Rightarrow> string \<Rightarrow> string \<Rightarrow> vec3 \<Rightarrow> addr \<Rightarrow> props" where
  "exampleMesh n u g xyz a =
     \<lparr>isMesh = True, name = Some (str n), uuid = str u, position = xyz,
      rotation = (0, 0, 0), geometry = g, material = a, originalMaterial = None,
      userData = []\<rparr>"

definition gearMesh :: props where
  "gearMesh = exampleMesh ''Gear-Drive-Main'' ''uuid-1'' ''torus'' (0, 0, 2.1) 0"

definition shaftMesh :: props where
  "shaftMesh = exampleMesh ''Shaft-Coupling'' ''uuid-2'' ''box'' (2.5, 0, 0) 1"

definition exampleScene :: object3d where
  "exampleScene = Object3D exampleGroup [Object3D gearMesh [], Object3D shaftMesh []]"

definition searchedScene :: object3d where
  "searchedScene =
     Object3D exampleGroup
       [Object3D (gearMesh\<lparr>material := 3, originalMaterial := Some 2\<rparr>) [],
        Object3D (shaftMesh\<lparr>material := 5, originalMaterial := Some 4\<rparr>) []]"

definition searchedHeap :: heap where
  "searchedHeap =
     exampleHeap @
       [MaterialObject (exampleMaterial ''#fbbf24''),
        MaterialObject (searchPreset (exampleMaterial ''#fbbf24'')),
        MaterialObject (exampleMaterial ''#94a3b8''),
        MaterialObject (ghostPreset (exampleMaterial ''#94a3b8''))]"

definition restoredScene :: object3d where
  "restoredScene =
     Object3D exampleGroup
       [Object3D (gearMesh\<lparr>material := 2, originalMaterial := Some 2\<rparr>) [],
        Object3D (shaftMesh\<lparr>material := 4, originalMaterial := Some 4\<rparr>) []]"

definition repeatedScene :: object3d where
  "repeatedScene =
     Object3D exampleGroup
       [Object3D (gearMesh\<lparr>material := 6, originalMaterial := Some 2\<rparr>) [],
        Object3D (shaftMesh\<lparr>material := 7, originalMaterial := Some 4\<rparr>) []]"

definition repeatedHeap :: heap where
  "repeatedHeap =
     searchedHeap @
       [MaterialObject (searchPreset (exampleMaterial ''#fbbf24'')),
        MaterialObject (ghostPreset (exampleMaterial ''#94a3b8''))]"

definition selectedHeap :: heap where
  "selectedHeap =
     exampleHeap @
       [MaterialObject (exampleMaterial ''#fbbf24''),
        MaterialObject (selectedPreset Loaded (exampleMaterial ''#fbbf24'')),
        MaterialObject (exampleMaterial ''#94a3b8''),
        MaterialObject (ghostPreset (exampleMaterial ''#94a3b8''))]"

definition namedHeap :: heap where
  "namedHeap =
     exampleHeap @
       [MaterialObject (exampleMaterial ''#fbbf24''),
        MaterialObject (selectedPreset Procedural (exampleMaterial ''#fbbf24'')),
        MaterialObject (exampleMaterial ''#94a3b8''),
        MaterialObject (ghostPreset (exampleMaterial ''#94a3b8''))]"

definition arrayHeap :: heap where
  "arrayHeap = exampleHeap @ [ArrayObject [0, 1]]"

definition arrayMesh :: props where
  "arrayMesh = exampleMesh ''Housing'' ''uuid-3'' ''box'' (0, 0, 0) 2"

definition arrayScene :: object3d where
  "arrayScene = Object3D exampleGroup [Object3D gearMesh [], Object3D arrayMesh []]"

section \<open>The viewer panel\<close>

text \<open>
  The four pieces of state of \<open>ModelViewer\<close>. Both versions of the component hold the
  same state and the same \<open>handleSystemChange\<close>; they differ in what a system and a
  selected part are.
\<close>

record ('sys, 'part) viewer =
  activeSystem :: 'sys
  selectedPart :: "'part option"
  searchTerm :: jsString
  autoRotate :: bool

definition handleSystemChange :: "'sys \<Rightarrow> ('sys, 'part) viewer \<Rightarrow> ('sys, 'part) viewer" where
  "handleSystemChange system st =
     st\<lparr>activeSystem := system, selectedPart := None, searchTerm := []\<rparr>"

section \<open>Lemmas about strings and stores\<close>

lemma includes_str_sublist: "includes_str s t = sublist t s"
  by (induction s) (auto simp: sublist_Cons_right)

lemma dropWhile_white: "list_all isWhiteSpace s \<Longrightarrow> dropWhile isWhiteSpace s = []"
  by (induction s) simp_all

lemma trim_white: "list_all isWhiteSpace s \<Longrightarrow> trim s = []"
  by (simp add: dropWhile_white trim_def)

lemma normalized_white:
  "lowerKeepsWhiteSpace lc \<Longrightarrow> list_all isWhiteSpace s \<Longrightarrow> trim (lc s) = []"
  by (simp add: lowerKeepsWhiteSpace_def trim_white)

lemma asciiLower_white: "isWhiteSpace c \<Longrightarrow> asciiLower c = c"
  by (auto simp: isWhiteSpace_def asciiLower_def)

lemma asciiLowerCase_keeps: "lowerKeepsWhiteSpace asciiLowerCase"
  unfolding lowerKeepsWhiteSpace_def asciiLowerCase_def
  by (auto intro!: map_idI simp: list_all_iff asciiLower_white)

lemma asciiLowerCase_ascii: "lowerOnAscii asciiLowerCase"
  by (simp add: lowerOnAscii_def)

lemma prefix_nth: "prefix h h' \<Longrightarrow> a < length h \<Longrightarrow> h' ! a = h ! a"
  by (auto simp: prefix_def nth_append)

lemma prefix_length: "prefix h h' \<Longrightarrow> length h \<le> length h'"
  by (auto simp: prefix_def)

section \<open>The callback at one node\<close>

lemma partName_frame [simp]:
  "partName lc (p\<lparr>originalMaterial := x\<rparr>) = partName lc p"
  "partName lc (p\<lparr>material := m\<rparr>) = partName lc p"
  by (simp_all add: partName_def)

lemma isSelected_frame [simp]:
  "isSelected lc v sel (p\<lparr>originalMaterial := x\<rparr>) = isSelected lc v sel p"
  "isSelected lc v sel (p\<lparr>material := m\<rparr>) = isSelected lc v sel p"
  by (cases v; cases sel; simp) (cases v; cases sel; simp)

lemma isSearchMatch_frame [simp]:
  "isSearchMatch lc ns (p\<lparr>originalMaterial := x\<rparr>) = isSearchMatch lc ns p"
  "isSearchMatch lc ns (p\<lparr>material := m\<rparr>) = isSearchMatch lc ns p"
  by (simp_all add: isSearchMatch_def)

lemma highlightChild_other: "\<not> isMesh p \<Longrightarrow> highlightChild lc v ns sel p h = Inr (p, h)"
  by (simp add: highlightChild_def)

lemma highlightChild_cached:
  assumes "isMesh p" "originalMaterial p = Some a"
  shows "highlightChild lc v ns sel p h =
    (if isReset ns sel then Inr (p\<lparr>material := a\<rparr>, h)
     else (case h ! a of
             MaterialObject m \<Rightarrow>
               Inr (p\<lparr>material := length h\<rparr>, h @ [MaterialObject (presetFor lc v ns sel p m)])
           | ArrayObject ms \<Rightarrow> Inl TypeError))"
  using assms
  by (simp add: highlightChild_def initOriginal_def clone_def isReset_def presetFor_def
      assignFields_def onMaterial_def split: heapObject.splits)

lemma highlightChild_first:
  assumes "isMesh p" "originalMaterial p = None"
  shows "highlightChild lc v ns sel p h =
    (case h ! material p of
       ArrayObject ms \<Rightarrow> Inl TypeError
     | MaterialObject m \<Rightarrow>
         if isReset ns sel
         then Inr (p\<lparr>originalMaterial := Some (length h), material := length h\<rparr>,
                   h @ [MaterialObject m])
         else Inr (p\<lparr>originalMaterial := Some (length h), material := Suc (length h)\<rparr>,
                   h @ [MaterialObject m, MaterialObject (presetFor lc v ns sel p m)]))"
  using assms
  by (auto simp: highlightChild_def initOriginal_def clone_def isReset_def presetFor_def
      assignFields_def onMaterial_def nth_append list_update_append split: heapObject.splits)

lemma highlightChild_error: "highlightChild lc v ns sel p h = Inl e \<Longrightarrow> e = TypeError"
  by (cases e) simp

lemma highlightChild_raises:
  "(highlightChild lc v ns sel p h = Inl TypeError) = raisesAt ns sel h p"
proof (cases "isMesh p")
  case False
  then show ?thesis by (simp add: highlightChild_other raisesAt_def)
next
  case True
  then show ?thesis
    by (cases "originalMaterial p")
       (auto simp: highlightChild_first highlightChild_cached raisesAt_def isArray_def
             split: heapObject.splits)
qed

lemma highlightChild_prefix:
  assumes "highlightChild lc v ns sel p h = Inr (p', h')"
  shows "prefix h h'"
proof (cases "isMesh p")
  case False
  with assms show ?thesis by (simp add: highlightChild_other)
next
  case True
  with assms show ?thesis
    by (cases "originalMaterial p")
       (auto simp: highlightChild_first highlightChild_cached
             split: heapObject.splits if_splits)
qed

lemma highlightChild_post:
  assumes wf: "wf_props h0 p" and pre: "prefix h0 h"
    and run: "highlightChild lc v ns sel p h = Inr (p', h')"
  shows "post lc v ns sel h0 h' p p'"
proof (cases "isMesh p")
  case False
  with run show ?thesis by (simp add: highlightChild_other post_def)
next
  case mesh: True
  from pre have len: "length h0 \<le> length h" by (rule prefix_length)
  from wf mesh have m: "material p < length h0" by (simp add: wf_props_def)
  with pre have hm: "h ! material p = h0 ! material p" by (simp add: prefix_nth)
  show ?thesis
  proof (cases "originalMaterial p")
    case None
    with mesh run hm len show ?thesis
      by (auto simp: highlightChild_first post_def snapshotOf_def nth_append
               split: if_splits heapObject.splits)
  next
    case (Some a)
    with wf mesh have "a < length h0" by (simp add: wf_props_def)
    with pre len have "h ! a = h0 ! a" "a < length h" by (simp_all add: prefix_nth)
    with Some mesh run len \<open>a < length h0\<close> show ?thesis
      by (auto simp: highlightChild_cached post_def snapshotOf_def nth_append
               split: if_splits heapObject.splits)
  qed
qed

lemma post_mono:
  assumes "post lc v ns sel h0 h1 p p'" "prefix h1 hf"
  shows "post lc v ns sel h0 hf p p'"
proof (cases "isMesh p")
  case False
  with assms show ?thesis by (simp add: post_def)
next
  case True
  with assms(1) obtain a where a:
    "isMesh p'" "name p' = name p" "uuid p' = uuid p" "originalMaterial p' = Some a"
    "a < length h1" "material p' < length h1" "h1 ! a = snapshotOf h0 p"
    "case originalMaterial p of Some b \<Rightarrow> a = b | None \<Rightarrow> length h0 \<le> a"
    "if isReset ns sel then material p' = a
     else length h0 \<le> material p' \<and> material p' \<noteq> a \<and>
          (\<exists>m. snapshotOf h0 p = MaterialObject m \<and>
               h1 ! material p' = MaterialObject (presetFor lc v ns sel p m))"
    unfolding post_def by auto
  from assms(2) a(5,6) have "hf ! a = h1 ! a" "hf ! material p' = h1 ! material p'"
    "a < length hf" "material p' < length hf"
    using prefix_length[OF assms(2)] by (simp_all add: prefix_nth)
  with a True show ?thesis
    unfolding post_def by (auto split: if_splits)
qed

lemma post_wf:
  "post lc v ns sel h0 hf p p' \<Longrightarrow> wf_props h0 p \<Longrightarrow> prefix h0 hf \<Longrightarrow> wf_props hf p'"
  by (cases "isMesh p") (auto simp: post_def wf_props_def dest: prefix_length split: if_splits)

lemma highlightChild_frame:
  assumes "highlightChild lc v ns sel p h = Inr (p', h')"
  shows "isMesh p' = isMesh p"
    and "p'\<lparr>material := 0, originalMaterial := None\<rparr> = p\<lparr>material := 0, originalMaterial := None\<rparr>"
    and "\<not> isMesh p \<Longrightarrow> p' = p"
    and "originalMaterial p = Some a \<Longrightarrow> originalMaterial p' = Some a"
proof -
  have "isMesh p' = isMesh p \<and>
        p'\<lparr>material := 0, originalMaterial := None\<rparr> = p\<lparr>material := 0, originalMaterial := None\<rparr> \<and>
        (\<not> isMesh p \<longrightarrow> p' = p) \<and>
        (originalMaterial p = Some a \<longrightarrow> originalMaterial p' = Some a)"
  proof (cases "isMesh p")
    case False
    with assms show ?thesis by (simp add: highlightChild_other)
  next
    case True
    with assms show ?thesis
      by (cases "originalMaterial p")
         (auto simp: highlightChild_first highlightChild_cached
               split: heapObject.splits if_splits)
  qed
  then show "isMesh p' = isMesh p"
    and "p'\<lparr>material := 0, originalMaterial := None\<rparr> = p\<lparr>material := 0, originalMaterial := None\<rparr>"
    and "\<not> isMesh p \<Longrightarrow> p' = p"
    and "originalMaterial p = Some a \<Longrightarrow> originalMaterial p' = Some a"
    by simp_all
qed

section \<open>The callback over the whole scene\<close>

lemma visit_all_Cons_Inr:
  assumes "visit_all cb (p # ps) h = Inr (qs, hf)"
  obtains p' h1 ps' where "cb p h = Inr (p', h1)" "visit_all cb ps h1 = Inr (ps', hf)"
    "qs = p' # ps'"
  using assms by (auto split: sum.splits prod.splits)

lemma visit_all_post:
  assumes "visit_all (highlightChild lc v ns sel) ps h = Inr (ps', hf)"
    and "prefix h0 h" and "list_all (wf_props h0) ps"
  shows "prefix h hf \<and> list_all2 (post lc v ns sel h0 hf) ps ps'"
  using assms
proof (induction ps arbitrary: h ps')
  case Nil
  then show ?case by simp
next
  case (Cons p ps)
  from Cons.prems(1) obtain p1 h1 ps1 where
    step: "highlightChild lc v ns sel p h = Inr (p1, h1)" and
    rest: "visit_all (highlightChild lc v ns sel) ps h1 = Inr (ps1, hf)" and
    res: "ps' = p1 # ps1"
    by (rule visit_all_Cons_Inr)
  have hh1: "prefix h h1" using step by (rule highlightChild_prefix)
  with Cons.prems(2) have h0h1: "prefix h0 h1" by (rule prefix_order.trans)
  from Cons.prems(3) have wfp: "wf_props h0 p" and wfps: "list_all (wf_props h0) ps" by simp_all
  from Cons.IH[OF rest h0h1 wfps]
  have ih: "prefix h1 hf" "list_all2 (post lc v ns sel h0 hf) ps ps1" by simp_all
  have "post lc v ns sel h0 h1 p p1" using wfp Cons.prems(2) step by (rule highlightChild_post)
  with ih(1) have "post lc v ns sel h0 hf p p1" by (rule post_mono[rotated])
  with ih hh1 res show ?case by (auto intro: prefix_order.trans)
qed

lemma visit_all_append:
  "visit_all cb (xs @ ys) h =
     (case visit_all cb xs h of
        Inl e \<Rightarrow> Inl e
      | Inr (xs', h1) \<Rightarrow>
          (case visit_all cb ys h1 of
             Inl e \<Rightarrow> Inl e
           | Inr (ys', h2) \<Rightarrow> Inr (xs' @ ys', h2)))"
  by (induction xs arbitrary: h) (auto split: sum.splits prod.splits)

lemma traverse_nodes:
  "visit_all cb (nodes t) h =
     (case traverse cb t h of Inl e \<Rightarrow> Inl e | Inr (t', h') \<Rightarrow> Inr (nodes t', h'))"
  "visit_all cb (concat (map nodes cs)) h =
     (case traverse_children cb cs h of
        Inl e \<Rightarrow> Inl e
      | Inr (cs', h') \<Rightarrow> Inr (concat (map nodes cs'), h'))"
proof (induction cb t h and cb cs h rule: traverse_traverse_children.induct)
  case (1 cb p cs h)
  show ?case
  proof (cases "cb p h")
    case (Inl e)
    then show ?thesis by simp
  next
    case (Inr x)
    obtain p' h1 where x: "x = (p', h1)" by (cases x)
    from 1[OF Inr x[symmetric]] Inr x show ?thesis
      by (auto split: sum.splits prod.splits)
  qed
next
  case (2 cb h)
  show ?case by simp
next
  case (3 cb c cs h)
  show ?case
  proof (cases "traverse cb c h")
    case (Inl e)
    with 3(1) show ?thesis by (simp add: visit_all_append)
  next
    case (Inr x)
    obtain c' h1 where x: "x = (c', h1)" by (cases x)
    from 3(2)[OF Inr x[symmetric]] 3(1) Inr x show ?thesis
      by (auto simp: visit_all_append split: sum.splits prod.splits)
  qed
qed

lemma traverse_eraseMesh:
  "traverse (highlightChild lc v ns sel) t h = Inr (t', h') \<Longrightarrow> eraseMesh t' = eraseMesh t"
  "traverse_children (highlightChild lc v ns sel) cs h = Inr (cs', h') \<Longrightarrow>
     map eraseMesh cs' = map eraseMesh cs"
proof (induction "highlightChild lc v ns sel" t h and "highlightChild lc v ns sel" cs h
       arbitrary: t' h' and cs' h' rule: traverse_traverse_children.induct)
  case (1 p cs h)
  from "1.prems" obtain p' h1 cs1 where
    c: "highlightChild lc v ns sel p h = Inr (p', h1)" and
    k: "traverse_children (highlightChild lc v ns sel) cs h1 = Inr (cs1, h')" and
    t: "t' = Object3D p' cs1"
    by (auto split: sum.splits prod.splits)
  from "1.hyps"[OF c refl k] have ih: "map eraseMesh cs1 = map eraseMesh cs" .
  note fr = highlightChild_frame(1-3)[OF c]
  show ?case
  proof (cases "isMesh p")
    case True
    with fr ih t show ?thesis by simp
  next
    case False
    with fr ih t show ?thesis by simp
  qed
next
  case (2 h)
  then show ?case by simp
next
  case (3 c cs h)
  from "3.prems" obtain c' h1 cs1 where
    c: "traverse (highlightChild lc v ns sel) c h = Inr (c', h1)" and
    k: "traverse_children (highlightChild lc v ns sel) cs h1 = Inr (cs1, h')" and
    t: "cs' = c' # cs1"
    by (auto split: sum.splits prod.splits)
  from "3.hyps"(1)[OF c] "3.hyps"(2)[OF c refl k] t show ?case by simp
qed

lemma updateHighlight_Inr:
  "(updateHighlight lc v (Some r) s sel h = Inr (Some r', h')) =
   (traverse (highlightChild lc v (trim (lc s)) sel) r h = Inr (r', h'))"
  by (auto simp: updateHighlight_def Let_def split: sum.splits prod.splits)

lemma updateHighlight_visit:
  assumes "updateHighlight lc v (Some r) s sel h = Inr (Some r', h')"
  shows "visit_all (highlightChild lc v (trim (lc s)) sel) (nodes r) h = Inr (nodes r', h')"
  using assms by (simp add: updateHighlight_Inr traverse_nodes)

lemma updateHighlight_post:
  assumes wf: "wf_scene r h" and run: "updateHighlight lc v (Some r) s sel h = Inr (Some r', h')"
  shows "prefix h h'" "list_all2 (post lc v (trim (lc s)) sel h h') (nodes r) (nodes r')"
    "eraseMesh r' = eraseMesh r" "wf_scene r' h'"
proof -
  from visit_all_post[OF updateHighlight_visit[OF run] _ wf[unfolded wf_scene_def]]
  show p: "prefix h h'"
    and l: "list_all2 (post lc v (trim (lc s)) sel h h') (nodes r) (nodes r')"
    by simp_all
  from run show "eraseMesh r' = eraseMesh r"
    by (simp add: updateHighlight_Inr traverse_eraseMesh)
  show "wf_scene r' h'"
    unfolding wf_scene_def list_all_length
  proof (intro allI impI)
    fix i assume i: "i < length (nodes r')"
    from l have len: "length (nodes r) = length (nodes r')" by (rule list_all2_lengthD)
    from l i len have "post lc v (trim (lc s)) sel h h' (nodes r ! i) (nodes r' ! i)"
      by (simp add: list_all2_nthD2)
    moreover from wf i len have "wf_props h (nodes r ! i)"
      by (simp add: wf_scene_def list_all_length)
    ultimately show "wf_props h' (nodes r' ! i)" using p by (rule post_wf)
  qed
qed

lemma visit_all_prefix:
  "visit_all (highlightChild lc v ns sel) ps h = Inr (ps', hf) \<Longrightarrow> prefix h hf"
proof (induction ps arbitrary: h ps')
  case Nil
  then show ?case by simp
next
  case (Cons p ps)
  from Cons.prems obtain p1 h1 ps1 where
    step: "highlightChild lc v ns sel p h = Inr (p1, h1)" and
    rest: "visit_all (highlightChild lc v ns sel) ps h1 = Inr (ps1, hf)"
    by (rule visit_all_Cons_Inr)
  have "prefix h h1" using step by (rule highlightChild_prefix)
  also have "prefix h1 hf" using rest by (rule Cons.IH)
  finally show ?case .
qed

lemma visit_all_cache_kept:
  "visit_all (highlightChild lc v ns sel) ps h = Inr (ps', hf) \<Longrightarrow>
   list_all2 (\<lambda>p p'. \<forall>a. originalMaterial p = Some a \<longrightarrow> originalMaterial p' = Some a) ps ps'"
proof (induction ps arbitrary: h ps')
  case Nil
  then show ?case by simp
next
  case (Cons p ps)
  from Cons.prems obtain p1 h1 ps1 where
    step: "highlightChild lc v ns sel p h = Inr (p1, h1)" and
    rest: "visit_all (highlightChild lc v ns sel) ps h1 = Inr (ps1, hf)" and
    res: "ps' = p1 # ps1"
    by (rule visit_all_Cons_Inr)
  from Cons.IH[OF rest] highlightChild_frame(4)[OF step] res show ?case by simp
qed

lemma visit_all_length:
  "visit_all cb ps h = Inr (ps', hf) \<Longrightarrow> length ps' = length ps"
proof (induction ps arbitrary: h ps')
  case Nil
  then show ?case by simp
next
  case (Cons p ps)
  from Cons.prems obtain p1 h1 ps1 where
    "visit_all cb ps h1 = Inr (ps1, hf)" "ps' = p1 # ps1"
    by (rule visit_all_Cons_Inr)
  with Cons.IH show ?case by simp
qed

lemma updateHighlight_prefix:
  assumes "updateHighlight lc v (Some r) s sel h = Inr (Some r', h')"
  shows "prefix h h'"
  using updateHighlight_visit[OF assms] by (rule visit_all_prefix)

lemma updateHighlight_cache_kept:
  assumes "updateHighlight lc v (Some r) s sel h = Inr (Some r', h')" "i < length (nodes r)"
    "originalMaterial (nodes r ! i) = Some a"
  shows "originalMaterial (nodes r' ! i) = Some a"
proof -
  let ?R = "\<lambda>p p'. \<forall>a. originalMaterial p = Some a \<longrightarrow> originalMaterial p' = Some a"
  have "list_all2 ?R (nodes r) (nodes r')"
    using updateHighlight_visit[OF assms(1)] by (rule visit_all_cache_kept)
  then have "?R (nodes r ! i) (nodes r' ! i)" using assms(2) by (rule list_all2_nthD)
  with assms(3) show ?thesis by simp
qed

lemma updateHighlight_normalized:
  "trim (lc s1) = trim (lc s2) \<Longrightarrow>
   updateHighlight lc v scene s1 sel h = updateHighlight lc v scene s2 sel h"
  by (cases scene) (simp_all add: updateHighlight_def)

section \<open>Where a call raises\<close>

lemma raisesAt_prefix:
  assumes "wf_props h0 p" "prefix h0 h"
  shows "raisesAt ns sel h p = raisesAt ns sel h0 p"
proof (cases "isMesh p")
  case False
  then show ?thesis by (simp add: raisesAt_def)
next
  case True
  with assms show ?thesis
    by (cases "originalMaterial p") (simp_all add: raisesAt_def wf_props_def prefix_nth)
qed

lemma visit_all_raises:
  assumes "prefix h0 h" "list_all (wf_props h0) ps"
  shows "(visit_all (highlightChild lc v ns sel) ps h = Inl TypeError) =
         (\<exists>p\<in>set ps. raisesAt ns sel h0 p)"
  using assms
proof (induction ps arbitrary: h)
  case Nil
  then show ?case by simp
next
  case (Cons p ps)
  from Cons.prems have wfp: "wf_props h0 p" and wfps: "list_all (wf_props h0) ps" by simp_all
  have here: "raisesAt ns sel h p = raisesAt ns sel h0 p"
    using wfp Cons.prems(1) by (rule raisesAt_prefix)
  show ?case
  proof (cases "highlightChild lc v ns sel p h")
    case (Inl e)
    then have err: "highlightChild lc v ns sel p h = Inl TypeError" by (cases e) simp
    then have "raisesAt ns sel h p" by (simp add: highlightChild_raises)
    with here err show ?thesis by simp
  next
    case (Inr x)
    obtain p1 h1 where x: "x = (p1, h1)" by (cases x)
    with Inr have step: "highlightChild lc v ns sel p h = Inr (p1, h1)" by simp
    then have "\<not> raisesAt ns sel h p"
      using highlightChild_raises[of lc v ns sel p h] by simp
    with here have no: "\<not> raisesAt ns sel h0 p" by simp
    have "prefix h h1" using step by (rule highlightChild_prefix)
    with Cons.prems(1) have "prefix h0 h1" by (rule prefix_order.trans)
    from Cons.IH[OF this wfps] step no show ?thesis
      by (auto split: sum.splits prod.splits)
  qed
qed

lemma updateHighlight_cases:
  "updateHighlight lc v (Some r) s sel h = Inl TypeError \<or>
   (\<exists>r' h'. updateHighlight lc v (Some r) s sel h = Inr (Some r', h'))"
proof (cases "traverse (highlightChild lc v (trim (lc s)) sel) r h")
  case (Inl e)
  then show ?thesis by (cases e) (simp add: updateHighlight_def)
next
  case (Inr x)
  then show ?thesis by (cases x) (simp add: updateHighlight_def)
qed

lemma updateHighlight_raises:
  assumes "wf_scene r h"
  shows "(updateHighlight lc v (Some r) s sel h = Inl TypeError) =
         (\<exists>p\<in>set (nodes r). raisesAt (trim (lc s)) sel h p)"
proof -
  let ?cb = "highlightChild lc v (trim (lc s)) sel"
  have "(updateHighlight lc v (Some r) s sel h = Inl TypeError) =
        (traverse ?cb r h = Inl TypeError)"
    by (auto simp: updateHighlight_def Let_def split: sum.splits prod.splits)
  also have "\<dots> = (visit_all ?cb (nodes r) h = Inl TypeError)"
    by (auto simp: traverse_nodes split: sum.splits prod.splits)
  also have "\<dots> = (\<exists>p\<in>set (nodes r). raisesAt (trim (lc s)) sel h p)"
    using assms by (intro visit_all_raises) (simp_all add: wf_scene_def)
  finally show ?thesis .
qed

section \<open>Sequences of calls\<close>

lemma post_keeps: "post lc v ns sel h hf p p' \<Longrightarrow> keeps h hf p p'"
  by (cases "isMesh p"; cases "originalMaterial p")
     (auto simp: post_def keeps_def snapshotOf_def)

lemma keeps_refl: "keeps h h p p"
  by (simp add: keeps_def split: option.splits)

lemma keeps_trans: "keeps h h1 p p1 \<Longrightarrow> keeps h1 h2 p1 p2 \<Longrightarrow> keeps h h2 p p2"
  by (cases "isMesh p"; cases "originalMaterial p")
     (auto simp: keeps_def)

lemma updateHighlight_keeps:
  assumes "wf_scene r h" "updateHighlight lc v (Some r) s sel h = Inr (Some r', h')"
  shows "list_all2 (keeps h h') (nodes r) (nodes r')"
  using updateHighlight_post(2)[OF assms]
  by (rule list_all2_mono) (rule post_keeps)

lemma sequence_keeps:
  assumes "wf_scene r h" "highlightSequence lc v calls r h = Inr (r', h')"
  shows "wf_scene r' h' \<and> prefix h h' \<and> eraseMesh r' = eraseMesh r \<and>
         list_all2 (keeps h h') (nodes r) (nodes r')"
  using assms
proof (induction calls arbitrary: r h)
  case Nil
  then show ?case by (simp add: list_all2_refl keeps_refl)
next
  case (Cons c calls)
  obtain s sel where c: "c = (s, sel)" by (cases c)
  from updateHighlight_cases[of lc v r s sel h] Cons.prems(2) c
  obtain r1 h1 where step: "updateHighlight lc v (Some r) s sel h = Inr (Some r1, h1)"
    by auto
  with Cons.prems(2) c have rest: "highlightSequence lc v calls r1 h1 = Inr (r', h')" by simp
  note one = updateHighlight_post[OF Cons.prems(1) step]
  from Cons.IH[OF one(4) rest] have ih: "wf_scene r' h'" "prefix h1 h'"
    "eraseMesh r' = eraseMesh r1" "list_all2 (keeps h1 h') (nodes r1) (nodes r')" by simp_all
  have "list_all2 (keeps h h') (nodes r) (nodes r')"
    using updateHighlight_keeps[OF Cons.prems(1) step] ih(4)
    by (rule list_all2_trans[rotated]) (rule keeps_trans)
  with ih one show ?case by (auto intro: prefix_order.trans)
qed

lemma node_post:
  assumes "wf_scene r h" "updateHighlight lc v (Some r) s sel h = Inr (Some r', h')"
    "i < length (nodes r)"
  shows "post lc v (trim (lc s)) sel h h' (nodes r ! i) (nodes r' ! i)"
  using updateHighlight_post(2)[OF assms(1,2)] assms(3) by (rule list_all2_nthD)

lemma node_keeps:
  assumes "wf_scene r h" "highlightSequence lc v calls r h = Inr (r', h')"
    "i < length (nodes r)"
  shows "keeps h h' (nodes r ! i) (nodes r' ! i)"
  using sequence_keeps[OF assms(1,2)] assms(3) by (simp add: list_all2_nthD)

lemma identifier_selected:
  "sid \<noteq> [] \<Longrightarrow> partIdentifier v p = sid \<Longrightarrow> isSelected lc v (Some sid) p"
  by (cases v) (auto simp: partName_def)

section \<open>The example scenes evaluated\<close>

lemmas string_eval = str_def asciiLowerCase_def asciiLower_def trim_def isWhiteSpace_def

lemmas scene_eval =
  updateHighlight_def highlightChild_def initOriginal_def clone_def assignFields_def
  onMaterial_def truthy_def isSearchMatch_def partName_def
  exampleScene_def exampleHeap_def exampleGroup_def exampleMesh_def gearMesh_def shaftMesh_def
  searchedScene_def searchedHeap_def restoredScene_def repeatedScene_def repeatedHeap_def
  selectedHeap_def namedHeap_def arrayHeap_def arrayMesh_def arrayScene_def

lemma example_wf: "wf_scene exampleScene exampleHeap"
  by (simp add: wf_scene_def wf_props_def scene_eval)

lemma searched_wf: "wf_scene searchedScene searchedHeap"
  by (simp add: wf_scene_def wf_props_def scene_eval)

lemma array_wf: "wf_scene arrayScene arrayHeap"
  by (simp add: wf_scene_def wf_props_def scene_eval)

lemma example_nodes: "nodes exampleScene = [exampleGroup, gearMesh, shaftMesh]"
  by (simp add: exampleScene_def)

lemma searched_nodes:
  "nodes searchedScene =
     [exampleGroup, gearMesh\<lparr>material := 3, originalMaterial := Some 2\<rparr>,
      shaftMesh\<lparr>material := 5, originalMaterial := Some 4\<rparr>]"
  by (simp add: searchedScene_def)

lemma array_nodes: "nodes arrayScene = [exampleGroup, gearMesh, arrayMesh]"
  by (simp add: arrayScene_def)

lemma example_meshes: "isMesh gearMesh" "isMesh shaftMesh" "isMesh arrayMesh"
  by (simp_all add: gearMesh_def shaftMesh_def arrayMesh_def exampleMesh_def)

lemma search_gear_eval:
  "updateHighlight asciiLowerCase Procedural (Some exampleScene) (str ''gear'') None exampleHeap =
     Inr (Some searchedScene, searchedHeap)"
  by (simp add: scene_eval string_eval)

lemma search_gear_again_eval:
  "updateHighlight asciiLowerCase Procedural (Some searchedScene) (str ''gear'') None searchedHeap =
     Inr (Some repeatedScene, repeatedHeap)"
  by (simp add: scene_eval string_eval)

lemma clear_search_eval:
  "updateHighlight asciiLowerCase Procedural (Some searchedScene) [] None searchedHeap =
     Inr (Some restoredScene, searchedHeap)"
  by (simp add: scene_eval string_eval)

lemma select_gear_eval:
  "updateHighlight asciiLowerCase Loaded (Some exampleScene) (str ''gear'') (Some (str ''uuid-1''))
      exampleHeap =
     Inr (Some searchedScene, selectedHeap)"
  by (simp add: scene_eval string_eval)

lemma select_name_eval:
  "updateHighlight asciiLowerCase Procedural (Some exampleScene) (str ''piston'')
      (Some (str ''Gear-Drive-Main'')) exampleHeap =
     Inr (Some searchedScene, namedHeap)"
  by (simp add: scene_eval string_eval)

lemma array_eval:
  "updateHighlight asciiLowerCase Loaded (Some arrayScene) [] None arrayHeap = Inl TypeError"
  by (simp add: scene_eval string_eval)

lemma ascii_literals:
  "list_all (\<lambda>c. c < 128) (str ''gear'')"
  "list_all (\<lambda>c. c < 128) (str ''GEAR'')"
  "list_all (\<lambda>c. c < 128) (str ''Gear-Drive-Main'')"
  "list_all (\<lambda>c. c < 128) (str ''Shaft-Coupling'')"
  by (simp_all add: str_def)

lemma gear_folded:
  "includes_str (asciiLowerCase (str ''Gear-Drive-Main'')) (trim (asciiLowerCase (str ''gear'')))"
  "includes_str (asciiLowerCase (str ''Gear-Drive-Main'')) (trim (asciiLowerCase (str ''GEAR'')))"
  "\<not> includes_str (asciiLowerCase (str ''Shaft-Coupling'')) (trim (asciiLowerCase (str ''gear'')))"
  "trim (asciiLowerCase (str ''gear'')) \<noteq> []"
  "trim (asciiLowerCase (str ''GEAR'')) \<noteq> []"
  by (simp_all add: string_eval)

lemma part_names_case_distinct:
  "distinct (map (\<lambda>n. asciiLowerCase (str n)) (partNames t))"
  by (simp add: partNames_def parts_def string_eval)

section \<open>The selected part\<close>

lemma isSelected_identifier:
  "isSelected lc v sel p =
     (\<exists>sid. sel = Some sid \<and> sid \<noteq> [] \<and>
        (case v of
           Procedural \<Rightarrow> lc (partIdentifier v p) = lc sid
         | Loaded \<Rightarrow> partIdentifier v p = sid))"
  by (cases v; cases sel) (auto simp: partName_def)

lemma other_part_not_selected:
  assumes "partIdentifier v p \<noteq> sid"
    and "v = Procedural \<Longrightarrow> lc (partIdentifier v p) = lc sid \<Longrightarrow> partIdentifier v p = sid"
  shows "\<not> isSelected lc v (Some sid) p"
  using assms by (cases v) (auto simp: isSelected_identifier)

section \<open>The properties\<close>

text \<open>
  Claim C1. Once the routine has run any number of times on a scene, a call with the
  empty search text and no selection (\<open>undefined\<close> or the empty string) leaves every
  mesh with its cached snapshot as active material, by reference, and that snapshot
  holds the values the mesh's material had before the first call (or, for a mesh that
  already carried a snapshot, the values of that snapshot). The empty string has no
  letters to fold: \<open>lc [] = []\<close>.
\<close>

theorem restore_original:
  assumes "wf_scene r0 h0"
    and "highlightSequence lc v calls r0 h0 = Inr (r1, h1)"
    and "updateHighlight lc v (Some r1) [] sel h1 = Inr (Some r2, h2)" and "\<not> truthy sel"
    and "lc [] = []"
    and "i < length (nodes r0)" and "isMesh (nodes r0 ! i)"
  shows "originalMaterial (nodes r2 ! i) = Some (material (nodes r2 ! i)) \<and>
         h2 ! material (nodes r2 ! i) =
           (case originalMaterial (nodes r0 ! i) of
              None \<Rightarrow> h0 ! material (nodes r0 ! i)
            | Some a \<Rightarrow> h0 ! a)"
proof -
  note seq = sequence_keeps[OF assms(1,2)]
  from seq have len: "length (nodes r0) = length (nodes r1)" by (auto dest: list_all2_lengthD)
  from node_keeps[OF assms(1,2,6)] assms(7)
  have k: "isMesh (nodes r1 ! i)" "snapshotOf h1 (nodes r1 ! i) = snapshotOf h0 (nodes r0 ! i)"
    by (simp_all add: keeps_def)
  from seq have wf1: "wf_scene r1 h1" by simp
  from assms(6) len have i1: "i < length (nodes r1)" by simp
  have "isReset (trim (lc [])) sel"
    using assms(4,5) by (simp add: isReset_def trim_def)
  with node_post[OF wf1 assms(3) i1] k
  have "originalMaterial (nodes r2 ! i) = Some (material (nodes r2 ! i))"
    "h2 ! material (nodes r2 ! i) = snapshotOf h0 (nodes r0 ! i)"
    by (auto simp: post_def)
  then show ?thesis by (simp add: snapshotOf_def split: option.splits)
qed

text \<open>The property at a concrete input that meets every hypothesis.\<close>

theorem restore_original_witness:
  "wf_scene exampleScene exampleHeap \<and>
   highlightSequence asciiLowerCase Procedural [(str ''gear'', None)] exampleScene exampleHeap =
     Inr (searchedScene, searchedHeap) \<and>
   updateHighlight asciiLowerCase Procedural (Some searchedScene) [] None searchedHeap =
     Inr (Some restoredScene, searchedHeap) \<and>
   \<not> truthy None \<and> asciiLowerCase [] = [] \<and>
   1 < length (nodes exampleScene) \<and> isMesh (nodes exampleScene ! 1) \<and>
   originalMaterial (nodes restoredScene ! 1) = Some (material (nodes restoredScene ! 1)) \<and>
   searchedHeap ! material (nodes restoredScene ! 1) =
     (case originalMaterial (nodes exampleScene ! 1) of
        None \<Rightarrow> exampleHeap ! material (nodes exampleScene ! 1)
      | Some a \<Rightarrow> exampleHeap ! a)"
proof -
  have q: "highlightSequence asciiLowerCase Procedural [(str ''gear'', None)] exampleScene
      exampleHeap = Inr (searchedScene, searchedHeap)"
    by (simp add: search_gear_eval)
  have t: "\<not> truthy None" by (simp add: truthy_def)
  have e: "asciiLowerCase [] = []" by (simp add: asciiLowerCase_def)
  have i: "1 < length (nodes exampleScene)" by (simp add: example_nodes)
  have m: "isMesh (nodes exampleScene ! 1)" by (simp add: example_nodes example_meshes)
  note c = restore_original[OF example_wf q clear_search_eval t e i m]
  from example_wf q clear_search_eval t e i m c show ?thesis by blast
qed

text \<open>
  Claim C2. When the selection is non-empty and equals the identifier of a mesh, the
  routine gives that mesh the selected preset, whatever the search text is, also when
  the mesh's name matches it: the active material is a clone of the snapshot with
  emissive colour and colour \<open>#f97316\<close>, emissive intensity 0.6 (procedural) or 0.8
  (loaded), not transparent, opacity 1. It is neither the search-match preset nor the
  ghost preset.
\<close>

theorem selection_precedence:
  assumes "wf_scene r h"
    and "updateHighlight lc v (Some r) s (Some sid) h = Inr (Some r', h')"
    and "i < length (nodes r)" and "isMesh (nodes r ! i)"
    and "sid \<noteq> []" and "partIdentifier v (nodes r ! i) = sid"
  shows "\<exists>m. snapshotOf h (nodes r ! i) = MaterialObject m \<and>
           h' ! material (nodes r' ! i) =
             MaterialObject
               (m\<lparr>emissive := Color ''#f97316'',
                  emissiveIntensity := (case v of Procedural \<Rightarrow> 0.6 | Loaded \<Rightarrow> 0.8),
                  color := Color ''#f97316'', transparent := False, opacity := 1\<rparr>) \<and>
           h' ! material (nodes r' ! i) \<noteq> MaterialObject (searchPreset m) \<and>
           h' ! material (nodes r' ! i) \<noteq> MaterialObject (ghostPreset m)"
proof -
  from assms(5,6) have sel: "isSelected lc v (Some sid) (nodes r ! i)"
    by (rule identifier_selected)
  from assms(5) have "\<not> isReset (trim (lc s)) (Some sid)"
    by (simp add: isReset_def truthy_def)
  with node_post[OF assms(1,2,3)] assms(4) sel obtain m where m:
    "snapshotOf h (nodes r ! i) = MaterialObject m"
    "h' ! material (nodes r' ! i) = MaterialObject (selectedPreset v m)"
    by (auto simp: post_def presetFor_def)
  have eq: "selectedPreset v m =
      m\<lparr>emissive := Color ''#f97316'',
        emissiveIntensity := (case v of Procedural \<Rightarrow> 0.6 | Loaded \<Rightarrow> 0.8),
        color := Color ''#f97316'', transparent := False, opacity := 1\<rparr>"
    by (cases v) (simp_all add: selectedPreset_def selectColor_def)
  have "color (selectedPreset v m) \<noteq> color (searchPreset m)"
    "color (selectedPreset v m) \<noteq> color (ghostPreset m)"
    by (simp_all add: selectedPreset_def searchPreset_def ghostPreset_def selectColor_def
        searchColor_def)
  then have ne: "selectedPreset v m \<noteq> searchPreset m" "selectedPreset v m \<noteq> ghostPreset m"
    by auto
  from m eq ne show ?thesis by (intro exI[of _ m]) simp
qed

text \<open>The property at a concrete input that meets every hypothesis.\<close>

theorem selection_precedence_witness:
  "wf_scene exampleScene exampleHeap \<and>
   updateHighlight asciiLowerCase Loaded (Some exampleScene) (str ''gear'')
       (Some (str ''uuid-1'')) exampleHeap =
     Inr (Some searchedScene, selectedHeap) \<and>
   1 < length (nodes exampleScene) \<and> isMesh (nodes exampleScene ! 1) \<and>
   str ''uuid-1'' \<noteq> [] \<and> partIdentifier Loaded (nodes exampleScene ! 1) = str ''uuid-1'' \<and>
   isSearchMatch asciiLowerCase (trim (asciiLowerCase (str ''gear''))) (nodes exampleScene ! 1) \<and>
   snapshotOf exampleHeap (nodes exampleScene ! 1) =
     MaterialObject (exampleMaterial ''#fbbf24'') \<and>
   selectedHeap ! material (nodes searchedScene ! 1) =
     MaterialObject
       ((exampleMaterial ''#fbbf24'')
          \<lparr>emissive := Color ''#f97316'', emissiveIntensity := 0.8,
           color := Color ''#f97316'', transparent := False, opacity := 1\<rparr>)"
proof -
  have i: "1 < length (nodes exampleScene)" by (simp add: example_nodes)
  have m: "isMesh (nodes exampleScene ! 1)" by (simp add: example_nodes example_meshes)
  have n: "str ''uuid-1'' \<noteq> []" by (simp add: str_def)
  have u: "partIdentifier Loaded (nodes exampleScene ! 1) = str ''uuid-1''"
    by (simp add: example_nodes gearMesh_def exampleMesh_def)
  have g: "isSearchMatch asciiLowerCase (trim (asciiLowerCase (str ''gear'')))
      (nodes exampleScene ! 1)"
    by (simp add: example_nodes gearMesh_def exampleMesh_def isSearchMatch_def partName_def
        gear_folded)
  have s: "snapshotOf exampleHeap (nodes exampleScene ! 1) =
      MaterialObject (exampleMaterial ''#fbbf24'')"
    by (simp add: example_nodes gearMesh_def exampleMesh_def snapshotOf_def exampleHeap_def)
  from selection_precedence[OF example_wf select_gear_eval i m n u] s
  have c: "selectedHeap ! material (nodes searchedScene ! 1) =
     MaterialObject
       ((exampleMaterial ''#fbbf24'')
          \<lparr>emissive := Color ''#f97316'', emissiveIntensity := 0.8,
           color := Color ''#f97316'', transparent := False, opacity := 1\<rparr>)"
    by auto
  from example_wf select_gear_eval i m n u g s c show ?thesis by blast
qed

text \<open>
  Claim C3. For every mesh that is not the selected part, when the trimmed, case-folded
  search text is not a substring of the case-folded name, so that the search text is not
  empty, the routine gives the mesh the ghost preset: a clone of the snapshot made
  transparent, with opacity 0.1, colour \<open>#cccccc\<close> and roughness 1. A mesh is the
  selected part when the selection test of the routine holds for it; by
  \<open>other_part_not_selected\<close> a mesh with another identifier is not, for loaded models
  always, for procedural assemblies when the selection is the exact name of a part and
  no other name agrees with it up to case, as in the three tables of the generator
  (\<open>part_names_case_distinct\<close>). The match is case-insensitive: it depends on the
  search text and on the name through their case-folded forms only; \<open>gear\<close> and
  \<open>GEAR\<close> match \<open>Gear-Drive-Main\<close>, and \<open>gear\<close> does not match \<open>Shaft-Coupling\<close>.
\<close>

theorem ghost_when_unmatched:
  assumes "wf_scene r h" and "updateHighlight lc v (Some r) s sel h = Inr (Some r', h')"
    and "i < length (nodes r)" and "isMesh (nodes r ! i)"
    and "\<not> isSelected lc v sel (nodes r ! i)"
    and "\<not> includes_str (partName lc (nodes r ! i)) (trim (lc s))"
  shows "(\<exists>m. snapshotOf h (nodes r ! i) = MaterialObject m \<and>
            h' ! material (nodes r' ! i) =
              MaterialObject
                (m\<lparr>transparent := True, opacity := 0.1, color := Color ''#cccccc'',
                   roughness := 1\<rparr>)) \<and>
         (\<forall>t q. lc t = lc s \<and>
                lc (partIdentifier Procedural q) = lc (partIdentifier Procedural (nodes r ! i)) \<longrightarrow>
                \<not> isSearchMatch lc (trim (lc t)) q) \<and>
         (lowerOnAscii lc \<longrightarrow>
            (\<forall>q. name q = Some (str ''Gear-Drive-Main'') \<longrightarrow>
                 isSearchMatch lc (trim (lc (str ''gear''))) q \<and>
                 isSearchMatch lc (trim (lc (str ''GEAR''))) q) \<and>
            (\<forall>q. name q = Some (str ''Shaft-Coupling'') \<longrightarrow>
                 \<not> isSearchMatch lc (trim (lc (str ''gear''))) q))"
proof -
  from assms(6) have ne: "trim (lc s) \<noteq> []"
    by (cases "partName lc (nodes r ! i)") auto
  then have nr: "\<not> isReset (trim (lc s)) sel" by (simp add: isReset_def)
  from assms(6) have nm: "\<not> isSearchMatch lc (trim (lc s)) (nodes r ! i)"
    by (simp add: isSearchMatch_def)
  from node_post[OF assms(1,2,3)] assms(4,5) nr nm obtain m where
    "snapshotOf h (nodes r ! i) = MaterialObject m"
    "h' ! material (nodes r' ! i) = MaterialObject (ghostPreset m)"
    by (auto simp: post_def presetFor_def)
  then have first: "\<exists>m. snapshotOf h (nodes r ! i) = MaterialObject m \<and>
      h' ! material (nodes r' ! i) =
        MaterialObject
          (m\<lparr>transparent := True, opacity := 0.1, color := Color ''#cccccc'', roughness := 1\<rparr>)"
    by (simp add: ghostPreset_def)
  have second: "\<not> isSearchMatch lc (trim (lc t)) q"
    if "lc t = lc s \<and>
        lc (partIdentifier Procedural q) = lc (partIdentifier Procedural (nodes r ! i))" for t q
    using that assms(6) by (simp add: isSearchMatch_def partName_def)
  have third: "isSearchMatch lc (trim (lc (str ''gear''))) q \<and>
      isSearchMatch lc (trim (lc (str ''GEAR''))) q"
    if "lowerOnAscii lc" "name q = Some (str ''Gear-Drive-Main'')" for q
    using that ascii_literals gear_folded
    by (simp add: lowerOnAscii_def isSearchMatch_def partName_def)
  have fourth: "\<not> isSearchMatch lc (trim (lc (str ''gear''))) q"
    if "lowerOnAscii lc" "name q = Some (str ''Shaft-Coupling'')" for q
    using that ascii_literals gear_folded
    by (simp add: lowerOnAscii_def isSearchMatch_def partName_def)
  from first second third fourth show ?thesis by blast
qed

text \<open>The property at a concrete input that meets every hypothesis.\<close>

theorem ghost_when_unmatched_witness:
  "wf_scene exampleScene exampleHeap \<and>
   updateHighlight asciiLowerCase Procedural (Some exampleScene) (str ''piston'')
       (Some (str ''Gear-Drive-Main'')) exampleHeap =
     Inr (Some searchedScene, namedHeap) \<and>
   2 < length (nodes exampleScene) \<and> isMesh (nodes exampleScene ! 2) \<and>
   partIdentifier Procedural (nodes exampleScene ! 2) \<noteq> str ''Gear-Drive-Main'' \<and>
   \<not> isSelected asciiLowerCase Procedural (Some (str ''Gear-Drive-Main'')) (nodes exampleScene ! 2) \<and>
   \<not> includes_str (partName asciiLowerCase (nodes exampleScene ! 2))
        (trim (asciiLowerCase (str ''piston''))) \<and>
   lowerOnAscii asciiLowerCase \<and>
   snapshotOf exampleHeap (nodes exampleScene ! 2) =
     MaterialObject (exampleMaterial ''#94a3b8'') \<and>
   namedHeap ! material (nodes searchedScene ! 2) =
     MaterialObject
       ((exampleMaterial ''#94a3b8'')
          \<lparr>transparent := True, opacity := 0.1, color := Color ''#cccccc'', roughness := 1\<rparr>) \<and>
   isSearchMatch asciiLowerCase (trim (asciiLowerCase (str ''GEAR''))) gearMesh \<and>
   \<not> isSearchMatch asciiLowerCase (trim (asciiLowerCase (str ''gear''))) shaftMesh"
proof -
  have i: "2 < length (nodes exampleScene)" by (simp add: example_nodes)
  have m: "isMesh (nodes exampleScene ! 2)" by (simp add: example_nodes example_meshes)
  have d: "partIdentifier Procedural (nodes exampleScene ! 2) \<noteq> str ''Gear-Drive-Main''"
    by (simp add: example_nodes shaftMesh_def exampleMesh_def str_def)
  have s: "\<not> isSelected asciiLowerCase Procedural (Some (str ''Gear-Drive-Main''))
      (nodes exampleScene ! 2)"
    by (simp add: example_nodes shaftMesh_def exampleMesh_def partName_def string_eval)
  have u: "\<not> includes_str (partName asciiLowerCase (nodes exampleScene ! 2))
      (trim (asciiLowerCase (str ''piston'')))"
    by (simp add: example_nodes shaftMesh_def exampleMesh_def partName_def string_eval)
  have o: "snapshotOf exampleHeap (nodes exampleScene ! 2) =
      MaterialObject (exampleMaterial ''#94a3b8'')"
    by (simp add: example_nodes shaftMesh_def exampleMesh_def snapshotOf_def exampleHeap_def)
  have gn: "name gearMesh = Some (str ''Gear-Drive-Main'')"
    "name shaftMesh = Some (str ''Shaft-Coupling'')"
    by (simp_all add: gearMesh_def shaftMesh_def exampleMesh_def)
  note c = ghost_when_unmatched[OF example_wf select_name_eval i m s u]
  from c o have c1: "namedHeap ! material (nodes searchedScene ! 2) =
     MaterialObject
       ((exampleMaterial ''#94a3b8'')
          \<lparr>transparent := True, opacity := 0.1, color := Color ''#cccccc'', roughness := 1\<rparr>)"
    by auto
  from c asciiLowerCase_ascii gn
  have c2: "isSearchMatch asciiLowerCase (trim (asciiLowerCase (str ''GEAR''))) gearMesh"
    "\<not> isSearchMatch asciiLowerCase (trim (asciiLowerCase (str ''gear''))) shaftMesh"
    by blast+
  from example_wf select_name_eval i m d s u asciiLowerCase_ascii o c1 c2
  show ?thesis by blast
qed

text \<open>
  Claim C4. The routine is idempotent: a second call with the same search text and
  selection leaves every mesh's active material with the same field values as the first
  call did, and leaves everything else in the scene as it was.
\<close>

theorem highlight_idempotent:
  assumes "wf_scene r h" and "updateHighlight lc v (Some r) s sel h = Inr (Some r1, h1)"
    and "updateHighlight lc v (Some r1) s sel h1 = Inr (Some r2, h2)"
  shows "eraseMesh r2 = eraseMesh r1 \<and>
         (\<forall>i<length (nodes r). isMesh (nodes r ! i) \<longrightarrow>
            h2 ! material (nodes r2 ! i) = h1 ! material (nodes r1 ! i))"
proof -
  note one = updateHighlight_post[OF assms(1,2)]
  note two = updateHighlight_post[OF one(4) assms(3)]
  have "h2 ! material (nodes r2 ! i) = h1 ! material (nodes r1 ! i)"
    if i: "i < length (nodes r)" and mesh: "isMesh (nodes r ! i)" for i
  proof -
    let ?ns = "trim (lc s)"
    let ?p = "nodes r ! i" and ?p1 = "nodes r1 ! i" and ?p2 = "nodes r2 ! i"
    from one(2) have len: "length (nodes r) = length (nodes r1)" by (rule list_all2_lengthD)
    have p1: "post lc v ?ns sel h h1 ?p ?p1" using one(2) i by (rule list_all2_nthD)
    have p2: "post lc v ?ns sel h1 h2 ?p1 ?p2" using two(2) i len by (simp add: list_all2_nthD)
    from p1 mesh obtain a where a: "isMesh ?p1" "name ?p1 = name ?p" "uuid ?p1 = uuid ?p"
      "originalMaterial ?p1 = Some a" "h1 ! a = snapshotOf h ?p"
      "if isReset ?ns sel then material ?p1 = a
       else (\<exists>m. snapshotOf h ?p = MaterialObject m \<and>
                 h1 ! material ?p1 = MaterialObject (presetFor lc v ?ns sel ?p m))"
      by (auto simp: post_def split: if_splits)
    from a(4,5) have snap: "snapshotOf h1 ?p1 = snapshotOf h ?p" by (simp add: snapshotOf_def)
    from a(2,3) have same: "presetFor lc v ?ns sel ?p1 = presetFor lc v ?ns sel ?p"
      by (cases v; cases sel) (simp_all add: presetFor_def isSearchMatch_def partName_def)
    from p2 a(1,4) have b: "h2 ! a = snapshotOf h1 ?p1"
      "if isReset ?ns sel then material ?p2 = a
       else (\<exists>m. snapshotOf h1 ?p1 = MaterialObject m \<and>
                 h2 ! material ?p2 = MaterialObject (presetFor lc v ?ns sel ?p1 m))"
      by (auto simp: post_def split: if_splits)
    show ?thesis
    proof (cases "isReset ?ns sel")
      case True
      with a b snap show ?thesis by simp
    next
      case False
      with a b snap same show ?thesis by auto
    qed
  qed
  with two(3) show ?thesis by blast
qed

text \<open>The property at a concrete input that meets every hypothesis.\<close>

theorem highlight_idempotent_witness:
  "wf_scene exampleScene exampleHeap \<and>
   updateHighlight asciiLowerCase Procedural (Some exampleScene) (str ''gear'') None exampleHeap =
     Inr (Some searchedScene, searchedHeap) \<and>
   updateHighlight asciiLowerCase Procedural (Some searchedScene) (str ''gear'') None searchedHeap =
     Inr (Some repeatedScene, repeatedHeap) \<and>
   1 < length (nodes exampleScene) \<and> isMesh (nodes exampleScene ! 1) \<and>
   eraseMesh repeatedScene = eraseMesh searchedScene \<and>
   repeatedHeap ! material (nodes repeatedScene ! 1) =
     searchedHeap ! material (nodes searchedScene ! 1) \<and>
   material (nodes repeatedScene ! 1) \<noteq> material (nodes searchedScene ! 1)"
proof -
  have i: "1 < length (nodes exampleScene)" by (simp add: example_nodes)
  have m: "isMesh (nodes exampleScene ! 1)" by (simp add: example_nodes example_meshes)
  have d: "material (nodes repeatedScene ! 1) \<noteq> material (nodes searchedScene ! 1)"
    by (simp add: repeatedScene_def searchedScene_def)
  note c = highlight_idempotent[OF example_wf search_gear_eval search_gear_again_eval]
  from c i m have "repeatedHeap ! material (nodes repeatedScene ! 1) =
     searchedHeap ! material (nodes searchedScene ! 1)" by blast
  with example_wf search_gear_eval search_gear_again_eval i m c d show ?thesis by blast
qed

text \<open>
  Claim C5. The snapshot of a mesh is captured by the first call that visits the mesh,
  as a fresh clone of the material the mesh holds then. Every later call leaves the same
  object in the cache with the same values, no call modifies an object that existed
  before it, and a preset is applied to a fresh clone, never to the snapshot.
\<close>

theorem snapshot_captured_once:
  assumes "wf_scene r0 h0" and "updateHighlight lc v (Some r0) s sel h0 = Inr (Some r1, h1)"
    and "highlightSequence lc v calls r1 h1 = Inr (r2, h2)"
    and "i < length (nodes r0)" and "isMesh (nodes r0 ! i)"
  shows "\<exists>a. originalMaterial (nodes r1 ! i) = Some a \<and> a < length h1 \<and>
           (case originalMaterial (nodes r0 ! i) of
              None \<Rightarrow> length h0 \<le> a \<and> h1 ! a = h0 ! material (nodes r0 ! i)
            | Some b \<Rightarrow> a = b \<and> h1 ! a = h0 ! b) \<and>
           originalMaterial (nodes r2 ! i) = Some a \<and> h2 ! a = h1 ! a \<and>
           prefix h0 h1 \<and> prefix h1 h2 \<and>
           (\<not> isReset (trim (lc s)) sel \<longrightarrow>
              length h0 \<le> material (nodes r1 ! i) \<and> material (nodes r1 ! i) \<noteq> a \<and>
              \<not> isArray (h1 ! a) \<and>
              h1 ! material (nodes r1 ! i) =
                onMaterial (presetFor lc v (trim (lc s)) sel (nodes r0 ! i)) (h1 ! a))"
proof -
  note one = updateHighlight_post[OF assms(1,2)]
  note seq = sequence_keeps[OF one(4) assms(3)]
  from one(2) have len: "length (nodes r0) = length (nodes r1)" by (rule list_all2_lengthD)
  let ?p = "nodes r0 ! i" and ?p1 = "nodes r1 ! i" and ?p2 = "nodes r2 ! i"
  from node_post[OF assms(1,2,4)] assms(5) obtain a where a:
    "isMesh ?p1" "originalMaterial ?p1 = Some a" "a < length h1" "h1 ! a = snapshotOf h0 ?p"
    "case originalMaterial ?p of Some b \<Rightarrow> a = b | None \<Rightarrow> length h0 \<le> a"
    "\<not> isReset (trim (lc s)) sel \<longrightarrow>
       length h0 \<le> material ?p1 \<and> material ?p1 \<noteq> a \<and>
       (\<exists>m. snapshotOf h0 ?p = MaterialObject m \<and>
            h1 ! material ?p1 = MaterialObject (presetFor lc v (trim (lc s)) sel ?p m))"
    by (auto simp: post_def split: if_splits)
  from a(4,6) have preset: "\<not> isReset (trim (lc s)) sel \<longrightarrow>
       length h0 \<le> material ?p1 \<and> material ?p1 \<noteq> a \<and> \<not> isArray (h1 ! a) \<and>
       h1 ! material ?p1 = onMaterial (presetFor lc v (trim (lc s)) sel ?p) (h1 ! a)"
    by (auto simp: isArray_def onMaterial_def)
  from assms(4) len have i1: "i < length (nodes r1)" by simp
  from node_keeps[OF one(4) assms(3) i1] a(1,2)
  have k: "originalMaterial ?p2 = Some a" "snapshotOf h2 ?p2 = snapshotOf h1 ?p1"
    by (simp_all add: keeps_def)
  with a(2) have "h2 ! a = h1 ! a" by (simp add: snapshotOf_def)
  moreover from a(4,5) have "case originalMaterial ?p of
      None \<Rightarrow> length h0 \<le> a \<and> h1 ! a = h0 ! material ?p | Some b \<Rightarrow> a = b \<and> h1 ! a = h0 ! b"
    by (simp add: snapshotOf_def split: option.splits)
  ultimately show ?thesis using a(2,3) preset k one(1) seq by blast
qed

text \<open>The property at a concrete input that meets every hypothesis.\<close>

theorem snapshot_captured_once_witness:
  "wf_scene exampleScene exampleHeap \<and>
   updateHighlight asciiLowerCase Procedural (Some exampleScene) (str ''gear'') None exampleHeap =
     Inr (Some searchedScene, searchedHeap) \<and>
   highlightSequence asciiLowerCase Procedural [(str ''gear'', None)] searchedScene searchedHeap =
     Inr (repeatedScene, repeatedHeap) \<and>
   1 < length (nodes exampleScene) \<and> isMesh (nodes exampleScene ! 1) \<and>
   originalMaterial (nodes exampleScene ! 1) = None \<and>
   \<not> isReset (trim (asciiLowerCase (str ''gear''))) None \<and>
   originalMaterial (nodes searchedScene ! 1) = Some 2 \<and> 2 < length searchedHeap \<and>
   length exampleHeap \<le> 2 \<and>
   searchedHeap ! 2 = exampleHeap ! material (nodes exampleScene ! 1) \<and>
   originalMaterial (nodes repeatedScene ! 1) = Some 2 \<and>
   repeatedHeap ! 2 = searchedHeap ! 2 \<and>
   prefix exampleHeap searchedHeap \<and> prefix searchedHeap repeatedHeap \<and>
   length exampleHeap \<le> material (nodes searchedScene ! 1) \<and>
   material (nodes searchedScene ! 1) \<noteq> 2 \<and>
   \<not> isArray (searchedHeap ! 2) \<and>
   searchedHeap ! material (nodes searchedScene ! 1) =
     onMaterial
       (presetFor asciiLowerCase Procedural (trim (asciiLowerCase (str ''gear''))) None
          (nodes exampleScene ! 1))
       (searchedHeap ! 2)"
proof -
  have q: "highlightSequence asciiLowerCase Procedural [(str ''gear'', None)] searchedScene
      searchedHeap = Inr (repeatedScene, repeatedHeap)"
    by (simp add: search_gear_again_eval)
  have i: "1 < length (nodes exampleScene)" by (simp add: example_nodes)
  have m: "isMesh (nodes exampleScene ! 1)" by (simp add: example_nodes example_meshes)
  have o: "originalMaterial (nodes exampleScene ! 1) = None"
    by (simp add: example_nodes gearMesh_def exampleMesh_def)
  have n: "\<not> isReset (trim (asciiLowerCase (str ''gear''))) None"
    by (simp add: isReset_def gear_folded)
  have s: "originalMaterial (nodes searchedScene ! 1) = Some 2" by (simp add: searched_nodes)
  from snapshot_captured_once[OF example_wf search_gear_eval q i m] obtain a where a:
    "originalMaterial (nodes searchedScene ! 1) = Some a" "a < length searchedHeap"
    "case originalMaterial (nodes exampleScene ! 1) of
       None \<Rightarrow> length exampleHeap \<le> a \<and>
               searchedHeap ! a = exampleHeap ! material (nodes exampleScene ! 1)
     | Some b \<Rightarrow> a = b \<and> searchedHeap ! a = exampleHeap ! b"
    "originalMaterial (nodes repeatedScene ! 1) = Some a"
    "repeatedHeap ! a = searchedHeap ! a"
    "prefix exampleHeap searchedHeap" "prefix searchedHeap repeatedHeap"
    "\<not> isReset (trim (asciiLowerCase (str ''gear''))) None \<longrightarrow>
       length exampleHeap \<le> material (nodes searchedScene ! 1) \<and>
       material (nodes searchedScene ! 1) \<noteq> a \<and>
       \<not> isArray (searchedHeap ! a) \<and>
       searchedHeap ! material (nodes searchedScene ! 1) =
         onMaterial
           (presetFor asciiLowerCase Procedural (trim (asciiLowerCase (str ''gear''))) None
              (nodes exampleScene ! 1))
           (searchedHeap ! a)"
    by blast
  from a(1) s have a2: "a = 2" by simp
  from a(3) o have "length exampleHeap \<le> a"
    "searchedHeap ! a = exampleHeap ! material (nodes exampleScene ! 1)" by simp_all
  with a a2 n example_wf search_gear_eval q i m o s show ?thesis by blast
qed

text \<open>
  Claim C6, amended. With a missing or null root the routine returns at once, raises no
  error and leaves the store as it is, whatever the search text and the selection are.
  With a root it has one failure mode: it raises a TypeError exactly when the scene has a
  mesh on which it calls \<open>clone()\<close> on an array of materials (a mesh without cached
  snapshot whose material is an array); in every other case it runs to completion and
  returns the scene.
\<close>

theorem root_guard_and_failures:
  "updateHighlight lc v None s sel h = Inr (None, h) \<and>
   (wf_scene r h \<longrightarrow>
      (updateHighlight lc v (Some r) s sel h = Inl TypeError) =
        (\<exists>p\<in>set (nodes r). raisesAt (trim (lc s)) sel h p) \<and>
      (\<exists>r' h'. updateHighlight lc v (Some r) s sel h = Inr (Some r', h')) =
        (\<forall>p\<in>set (nodes r). \<not> raisesAt (trim (lc s)) sel h p))"
proof -
  have null: "updateHighlight lc v None s sel h = Inr (None, h)"
    by (simp add: updateHighlight_def)
  have rest: "(updateHighlight lc v (Some r) s sel h = Inl TypeError) =
        (\<exists>p\<in>set (nodes r). raisesAt (trim (lc s)) sel h p) \<and>
      (\<exists>r' h'. updateHighlight lc v (Some r) s sel h = Inr (Some r', h')) =
        (\<forall>p\<in>set (nodes r). \<not> raisesAt (trim (lc s)) sel h p)" if wf: "wf_scene r h"
  proof -
    note raises = updateHighlight_raises[OF wf, of lc v s sel]
    from updateHighlight_cases[of lc v r s sel h]
    have "(\<exists>r' h'. updateHighlight lc v (Some r) s sel h = Inr (Some r', h')) =
        (updateHighlight lc v (Some r) s sel h \<noteq> Inl TypeError)"
      by auto
    with raises show ?thesis by simp
  qed
  from null rest show ?thesis by blast
qed

text \<open>The property at a concrete input that meets every hypothesis.\<close>

theorem root_guard_and_failures_witness:
  "updateHighlight asciiLowerCase Loaded None (str ''gear'') None exampleHeap =
     Inr (None, exampleHeap) \<and>
   wf_scene exampleScene exampleHeap \<and>
   \<not> raisesAt (trim (asciiLowerCase (str ''gear''))) None exampleHeap exampleGroup \<and>
   \<not> raisesAt (trim (asciiLowerCase (str ''gear''))) None exampleHeap gearMesh \<and>
   \<not> raisesAt (trim (asciiLowerCase (str ''gear''))) None exampleHeap shaftMesh \<and>
   updateHighlight asciiLowerCase Loaded (Some exampleScene) (str ''gear'') None exampleHeap \<noteq>
     Inl TypeError \<and>
   wf_scene arrayScene arrayHeap \<and>
   raisesAt (trim (asciiLowerCase [])) None arrayHeap arrayMesh \<and>
   updateHighlight asciiLowerCase Loaded (Some arrayScene) [] None arrayHeap = Inl TypeError"
proof -
  let ?ns = "trim (asciiLowerCase (str ''gear''))"
  have n: "\<not> raisesAt ?ns None exampleHeap exampleGroup"
    "\<not> raisesAt ?ns None exampleHeap gearMesh"
    "\<not> raisesAt ?ns None exampleHeap shaftMesh"
    by (simp_all add: raisesAt_def isArray_def exampleGroup_def gearMesh_def shaftMesh_def
        exampleMesh_def exampleHeap_def)
  then have all: "\<forall>p\<in>set (nodes exampleScene). \<not> raisesAt ?ns None exampleHeap p"
    by (simp add: example_nodes)
  have a: "raisesAt (trim (asciiLowerCase [])) None arrayHeap arrayMesh"
    by (simp add: raisesAt_def isArray_def arrayMesh_def exampleMesh_def arrayHeap_def
        exampleHeap_def)
  then have ex: "\<exists>p\<in>set (nodes arrayScene). raisesAt (trim (asciiLowerCase [])) None arrayHeap p"
    by (auto simp: array_nodes)
  from root_guard_and_failures[of asciiLowerCase Loaded "str ''gear''" None exampleHeap
      exampleScene] example_wf all
  have c1: "updateHighlight asciiLowerCase Loaded None (str ''gear'') None exampleHeap =
      Inr (None, exampleHeap)"
    "updateHighlight asciiLowerCase Loaded (Some exampleScene) (str ''gear'') None exampleHeap \<noteq>
      Inl TypeError"
    by auto
  from root_guard_and_failures[of asciiLowerCase Loaded "[]" None arrayHeap arrayScene]
    array_wf ex
  have c2: "updateHighlight asciiLowerCase Loaded (Some arrayScene) [] None arrayHeap =
      Inl TypeError"
    by blast
  from c1 c2 n a example_wf array_wf show ?thesis by blast
qed

text \<open>
  The claim as first stated allows no failure but the guarded one. It fails on a scene
  with a mesh that holds an array of two materials: the routine reaches
  \<open>child.material.clone()\<close> on the array and raises a TypeError, for the empty search
  text as for any other.
\<close>

theorem array_material_counterexample:
  "wf_scene arrayScene arrayHeap \<and>
   nodes arrayScene ! 2 = arrayMesh \<and> isMesh arrayMesh \<and>
   arrayHeap ! material arrayMesh = ArrayObject [0, 1] \<and>
   updateHighlight asciiLowerCase Loaded (Some arrayScene) [] None arrayHeap = Inl TypeError \<and>
   updateHighlight asciiLowerCase Procedural (Some arrayScene) (str ''gear'') None arrayHeap =
     Inl TypeError"
proof -
  have n: "nodes arrayScene ! 2 = arrayMesh" by (simp add: array_nodes)
  have o: "arrayHeap ! material arrayMesh = ArrayObject [0, 1]"
    by (simp add: arrayMesh_def exampleMesh_def arrayHeap_def exampleHeap_def)
  have e: "updateHighlight asciiLowerCase Procedural (Some arrayScene) (str ''gear'') None
      arrayHeap = Inl TypeError"
    by (simp add: scene_eval string_eval)
  from array_wf n example_meshes(3) o array_eval e show ?thesis by blast
qed

text \<open>
  Claim C7. Changing the active system clears the selected part and the search text and
  leaves the auto-rotate flag as it was.
\<close>

theorem system_change_resets:
  "selectedPart (handleSystemChange sys st) = None \<and>
   searchTerm (handleSystemChange sys st) = [] \<and>
   autoRotate (handleSystemChange sys st) = autoRotate st \<and>
   activeSystem (handleSystemChange sys st) = sys"
  by (simp add: handleSystemChange_def)

text \<open>
  Claim C8. The generator is a function of the system-type tag alone: each recognised
  tag gives its fixed ordered list of parts, and every tag other than \<open>demo-engine\<close>
  and \<open>demo-pump\<close> gives the circuit configuration.
\<close>

theorem parts_fixed_table:
  "partNames ''demo-engine'' =
     [''Engine-Housing-Outer'', ''Piston-001'', ''Piston-002'', ''Piston-003'', ''Piston-004'',
      ''Gear-Drive-Main'', ''Shaft-Coupling''] \<and>
   partNames ''demo-pump'' =
     [''Reservoir-Tank'', ''Valve-Inlet'', ''Valve-Outlet'', ''Pipe-Connector''] \<and>
   partNames ''demo-circuit'' =
     [''PCB-Board-Base'', ''Chip-CPU'', ''Capacitor-C1'', ''Capacitor-C2'', ''Resistor-Array''] \<and>
   (t \<noteq> ''demo-engine'' \<and> t \<noteq> ''demo-pump'' \<longrightarrow> parts t = parts ''demo-circuit'')"
  by (simp add: partNames_def parts_def)

text \<open>The property at a concrete input that meets every hypothesis.\<close>

theorem parts_fixed_table_witness:
  "''demo-unknown'' \<noteq> ''demo-engine'' \<and> ''demo-unknown'' \<noteq> ''demo-pump'' \<and>
   parts ''demo-unknown'' = parts ''demo-circuit'' \<and>
   length (parts ''demo-unknown'') = 5"
  using parts_fixed_table [of "''demo-unknown''"] by (simp add: parts_def)

text \<open>
  Claim C9. A call changes nothing but the active material of each mesh and, where a mesh
  had no snapshot yet, its cached snapshot: the tree structure, every node that is not a
  mesh and every other field of every mesh stay as they were, a snapshot already cached
  stays in place, and every object allocated before the call keeps its values.
\<close>

theorem highlight_frame:
  assumes "updateHighlight lc v (Some r) s sel h = Inr (Some r', h')"
  shows "eraseMesh r' = eraseMesh r \<and> prefix h h' \<and>
         (\<forall>i<length (nodes r). \<forall>a. originalMaterial (nodes r ! i) = Some a \<longrightarrow>
             originalMaterial (nodes r' ! i) = Some a)"
proof -
  from assms have "eraseMesh r' = eraseMesh r"
    by (simp add: updateHighlight_Inr traverse_eraseMesh)
  moreover from assms have "prefix h h'" by (rule updateHighlight_prefix)
  ultimately show ?thesis using updateHighlight_cache_kept[OF assms] by blast
qed

text \<open>The property at a concrete input that meets every hypothesis.\<close>

theorem highlight_frame_witness:
  "updateHighlight asciiLowerCase Procedural (Some searchedScene) (str ''gear'') None searchedHeap =
     Inr (Some repeatedScene, repeatedHeap) \<and>
   1 < length (nodes searchedScene) \<and>
   originalMaterial (nodes searchedScene ! 1) = Some 2 \<and>
   originalMaterial (nodes repeatedScene ! 1) = Some 2 \<and>
   eraseMesh repeatedScene = eraseMesh searchedScene \<and>
   prefix searchedHeap repeatedHeap"
proof -
  have i: "1 < length (nodes searchedScene)" by (simp add: searched_nodes)
  have o: "originalMaterial (nodes searchedScene ! 1) = Some 2" by (simp add: searched_nodes)
  note c = highlight_frame[OF search_gear_again_eval]
  from c i o have "originalMaterial (nodes repeatedScene ! 1) = Some 2" by blast
  with search_gear_again_eval i o c show ?thesis by blast
qed

text \<open>
  Claim C10. A search text of white space only normalises to the empty string, and the
  routine then does exactly what it does for the empty search text; two search texts with
  the same normal form give the same result.
\<close>

theorem whitespace_search_is_empty:
  assumes "lowerKeepsWhiteSpace lc" and "\<forall>c\<in>set s. isWhiteSpace c"
  shows "trim (lc s) = [] \<and>
         updateHighlight lc v scene s sel h = updateHighlight lc v scene [] sel h \<and>
         (\<forall>s1 s2. trim (lc s1) = trim (lc s2) \<longrightarrow>
            updateHighlight lc v scene s1 sel h = updateHighlight lc v scene s2 sel h)"
proof -
  from assms(2) have "list_all isWhiteSpace s" by (simp add: list_all_iff)
  with assms(1) have n: "trim (lc s) = []" by (rule normalized_white)
  from assms(1) have "trim (lc []) = []" by (simp add: normalized_white)
  with n have "trim (lc s) = trim (lc [])" by simp
  then have e: "updateHighlight lc v scene s sel h = updateHighlight lc v scene [] sel h"
    by (rule updateHighlight_normalized)
  have g: "\<forall>s1 s2. trim (lc s1) = trim (lc s2) \<longrightarrow>
      updateHighlight lc v scene s1 sel h = updateHighlight lc v scene s2 sel h"
    by (intro allI impI) (rule updateHighlight_normalized)
  from n e g show ?thesis by blast
qed

text \<open>The property at a concrete input that meets every hypothesis.\<close>

theorem whitespace_search_is_empty_witness:
  "lowerKeepsWhiteSpace asciiLowerCase \<and>
   isWhiteSpace 32 \<and> isWhiteSpace 160 \<and> isWhiteSpace 8195 \<and>
   set [32, 160, 8195] = {32, 160, 8195 :: nat} \<and>
   trim (asciiLowerCase [32, 160, 8195]) = [] \<and>
   updateHighlight asciiLowerCase Procedural (Some exampleScene) [32, 160, 8195] None exampleHeap =
     updateHighlight asciiLowerCase Procedural (Some exampleScene) [] None exampleHeap"
proof -
  have w: "isWhiteSpace 32" "isWhiteSpace 160" "isWhiteSpace 8195"
    by (simp_all add: isWhiteSpace_def)
  have s: "set [32, 160, 8195] = {32, 160, 8195 :: nat}" by simp
  from w have a: "\<forall>c\<in>set [32, 160, 8195]. isWhiteSpace c" by simp
  note c = whitespace_search_is_empty[OF asciiLowerCase_keeps a,
      of Procedural "Some exampleScene" None exampleHeap]
  from c asciiLowerCase_keeps w s show ?thesis by blast
qed

end
